theory Spec2Isabelle
  imports Main "HOL-Library.Word"
begin

unbundle bit_operations_syntax

section \<open>USB transport for HTTP: the model\<close>

text \<open>
  The model follows the transport source function by function. A Go call either returns,
  panics, or never returns (it blocks on a channel, or it loops for ever); the three are
  the constructors of \<open>outcome\<close>. Go \<open>error\<close> values are ordinary results, kept apart
  from panics. Logging changes nothing of the state modelled here and is left out.
\<close>

datatype 'a outcome = Returns 'a | Panics string | Hangs

datatype error =
    ErrShutdown
  | ErrCanceled
  | ErrDeadlineExceeded
  | ErrEOF
  | ErrIO string

type_synonym int32 = "32 word"
type_synonym byte = "8 word"

subsection \<open>usbConnState: the connection state tracker\<close>

text \<open>
  Three slices of \<open>int32\<close> counters, indexed by the connection index. The field
  \<open>write\<close> of the source is \<open>write'\<close> here.
\<close>

record usbConnState =
  alloc :: "int32 list"
  read :: "int32 list"
  write' :: "int32 list"

definition newUsbConnState :: "nat \<Rightarrow> usbConnState" where
  "newUsbConnState cnt =
     \<lparr>alloc = replicate cnt 0, read = replicate cnt 0, write' = replicate cnt 0\<rparr>"

text \<open>
  \<open>atomic.AddInt32(&xs[i], d)\<close>: indexing a slice out of range panics, the addition
  wraps around.
\<close>

definition AddInt32 :: "int32 list \<Rightarrow> nat \<Rightarrow> int32 \<Rightarrow> int32 list outcome" where
  "AddInt32 xs i d =
     (if i < length xs then Returns (xs[i := xs ! i + d])
      else Panics ''index out of range'')"

definition gotConn :: "usbConnState \<Rightarrow> nat \<Rightarrow> usbConnState outcome" where
  "gotConn state i =
     (case AddInt32 (alloc state) i 1 of
        Returns xs \<Rightarrow> Returns (state\<lparr>alloc := xs\<rparr>)
      | Panics s \<Rightarrow> Panics s
      | Hangs \<Rightarrow> Hangs)"

definition putConn :: "usbConnState \<Rightarrow> nat \<Rightarrow> usbConnState outcome" where
  "putConn state i =
     (case AddInt32 (alloc state) i (- 1) of
        Returns xs \<Rightarrow> Returns (state\<lparr>alloc := xs\<rparr>)
      | Panics s \<Rightarrow> Panics s
      | Hangs \<Rightarrow> Hangs)"

definition beginRead :: "usbConnState \<Rightarrow> nat \<Rightarrow> usbConnState outcome" where
  "beginRead state i =
     (case AddInt32 (read state) i 1 of
        Returns xs \<Rightarrow> Returns (state\<lparr>read := xs\<rparr>)
      | Panics s \<Rightarrow> Panics s
      | Hangs \<Rightarrow> Hangs)"

definition doneRead :: "usbConnState \<Rightarrow> nat \<Rightarrow> usbConnState outcome" where
  "doneRead state i =
     (case AddInt32 (read state) i (- 1) of
        Returns xs \<Rightarrow> Returns (state\<lparr>read := xs\<rparr>)
      | Panics s \<Rightarrow> Panics s
      | Hangs \<Rightarrow> Hangs)"

definition beginWrite :: "usbConnState \<Rightarrow> nat \<Rightarrow> usbConnState outcome" where
  "beginWrite state i =
     (case AddInt32 (write' state) i 1 of
        Returns xs \<Rightarrow> Returns (state\<lparr>write' := xs\<rparr>)
      | Panics s \<Rightarrow> Panics s
      | Hangs \<Rightarrow> Hangs)"

definition doneWrite :: "usbConnState \<Rightarrow> nat \<Rightarrow> usbConnState outcome" where
  "doneWrite state i =
     (case AddInt32 (write' state) i (- 1) of
        Returns xs \<Rightarrow> Returns (state\<lparr>write' := xs\<rparr>)
      | Panics s \<Rightarrow> Panics s
      | Hangs \<Rightarrow> Hangs)"

text \<open>\<open>fmt.Sprintf("%d", n)\<close> for a count \<open>n\<close>: its decimal digits.\<close>

definition digit_char :: "nat \<Rightarrow> char" where
  "digit_char d = ''0123456789'' ! d"

fun Sprintf_d :: "nat \<Rightarrow> string" where
  "Sprintf_d n =
     (if n < 10 then [digit_char n] else Sprintf_d (n div 10) @ [digit_char (n mod 10)])"

declare Sprintf_d.simps [simp del]

text \<open>
  \<open>usbConnState.String\<close>. \<open>String_body\<close> is one pass of the loop over
  \<open>range state.alloc\<close>, on the pair of \<open>buf\<close> and \<open>used\<close>: the three loads (which
  panic when \<open>read\<close> or \<open>write\<close> is shorter than \<open>alloc\<close>), the separating space
  when \<open>buf\<close> is not empty, then the three flags.
\<close>

definition String_body :: "usbConnState \<Rightarrow> nat \<Rightarrow> string \<times> nat \<Rightarrow> (string \<times> nat) outcome" where
  "String_body state i acc =
     (case acc of (buf, used) \<Rightarrow>
        if length (read state) \<le> i \<or> length (write' state) \<le> i
        then Panics ''index out of range''
        else
          let a = alloc state ! i;
              r = read state ! i;
              w = write' state ! i;
              buf1 = (if length buf \<noteq> 0 then buf @ [CHR '' ''] else buf)
          in if a OR r OR w = 0
             then Returns (buf1 @ [CHR ''-'', CHR ''-'', CHR ''-''], used)
             else Returns (buf1
                        @ [if a \<noteq> 0 then CHR ''a'' else CHR ''-'']
                        @ [if r \<noteq> 0 then CHR ''r'' else CHR ''-'']
                        @ [if w \<noteq> 0 then CHR ''w'' else CHR ''-''],
                       used + 1))"

fun String_loop :: "usbConnState \<Rightarrow> nat list \<Rightarrow> string \<times> nat \<Rightarrow> (string \<times> nat) outcome" where
  "String_loop state [] acc = Returns acc"
| "String_loop state (i # is) acc =
     (case String_body state i acc of
        Returns acc' \<Rightarrow> String_loop state is acc'
      | Panics s \<Rightarrow> Panics s
      | Hangs \<Rightarrow> Hangs)"

definition String :: "usbConnState \<Rightarrow> string outcome" where
  "String state =
     (case String_loop state [0..<length (alloc state)] ([], 0) of
        Returns (buf, used) \<Rightarrow> Returns (Sprintf_d used @ '' in use: '' @ buf)
      | Panics s \<Rightarrow> Panics s
      | Hangs \<Rightarrow> Hangs)"

text \<open>
  The string form as the specification words it, to compare \<open>String\<close> with: the
  counters of each connection index, its three flag characters, whether it counts as in
  use, and the groups joined by single spaces.
\<close>

definition counters :: "usbConnState \<Rightarrow> (int32 \<times> int32 \<times> int32) list" where
  "counters state = zip (alloc state) (zip (read state) (write' state))"

definition spec_flags :: "int32 \<times> int32 \<times> int32 \<Rightarrow> string" where
  "spec_flags t =
     (case t of (a, r, w) \<Rightarrow>
        [if a \<noteq> 0 then CHR ''a'' else CHR ''-'',
         if r \<noteq> 0 then CHR ''r'' else CHR ''-'',
         if w \<noteq> 0 then CHR ''w'' else CHR ''-''])"

definition spec_used :: "int32 \<times> int32 \<times> int32 \<Rightarrow> bool" where
  "spec_used t = (case t of (a, r, w) \<Rightarrow> a \<noteq> 0 \<or> r \<noteq> 0 \<or> w \<noteq> 0)"

fun spec_join :: "string list \<Rightarrow> string" where
  "spec_join [] = []"
| "spec_join [g] = g"
| "spec_join (g # h # gs) = g @ [CHR '' ''] @ spec_join (h # gs)"

subsection \<open>usbConn: one USB interface as a byte stream\<close>

text \<open>
  The USB interface under a connection is the environment of the transport. The device
  is a script: what the \<open>k\<close>-th \<open>Recv\<close>, \<open>ClearHalt\<close> and \<open>Send\<close> on the
  interface answer (a byte count and an error, or an error). The interface handle counts
  the calls made so far and knows whether it was closed.
\<close>

record usb_device =
  recv_result :: "nat \<Rightarrow> int \<times> error option"
  clear_halt_result :: "nat \<Rightarrow> error option"
  send_result :: "nat \<Rightarrow> int \<times> error option"

record UsbInterface =
  recvs :: nat
  halts :: nat
  sends :: nat
  closed :: bool

text \<open>
  The struct \<open>usbConn\<close>. The field \<open>transport\<close> is the transport that holds the
  connection; \<open>reader\<close> is the \<open>bufio.Reader\<close>, here the bytes it has buffered and not
  yet handed out. The byte counters are Go \<open>int\<close>s; \<open>put\<close> zeroes them after every
  transaction, and they are unbounded integers here.
\<close>

record usbConn =
  index :: nat
  iface :: UsbInterface
  reader :: "byte list"
  cntRecv :: int
  cntSent :: int

text \<open>
  What a \<open>Read\<close> does to the outside, in order: a bulk-in transfer with a buffer of the
  given length, a clear-halt of the input endpoint, a sleep of the given duration.
\<close>

datatype usb_event = EvRecv nat | EvClearHalt | EvSleep int

definition Recv :: "usb_device \<Rightarrow> UsbInterface \<Rightarrow> int \<times> error option \<times> UsbInterface" where
  "Recv dev ifc =
     (case recv_result dev (recvs ifc) of
        (n, err) \<Rightarrow> (n, err, ifc\<lparr>recvs := recvs ifc + 1\<rparr>))"

definition ClearHalt :: "usb_device \<Rightarrow> UsbInterface \<Rightarrow> error option \<times> UsbInterface" where
  "ClearHalt dev ifc = (clear_halt_result dev (halts ifc), ifc\<lparr>halts := halts ifc + 1\<rparr>)"

text \<open>\<open>time.Millisecond\<close>: a \<open>time.Duration\<close> counts nanoseconds.\<close>

definition Millisecond :: int where
  "Millisecond = 1000000"

text \<open>
  The alignment at the head of \<open>usbConn.Read\<close>:
  \<^verbatim>\<open>if n := len(b); n >= 512 { n &= ^511; b = b[0:n] }\<close>.
  A length is not negative, so the bitwise operation on the Go \<open>int\<close> is the one on
  the integers.
\<close>

definition Read_buf :: "'a list \<Rightarrow> 'a list" where
  "Read_buf b =
     (let n = int (length b)
      in if n \<ge> 512 then take (nat (n AND NOT 511)) b else b)"

text \<open>
  The \<open>for\<close> loop of \<open>usbConn.Read\<close>, on the length of the buffer handed to
  \<open>Recv\<close>, the current backoff, the connection and the events so far. The loop has no
  bound: where the device answers zero bytes for ever, it never returns, which is
  \<open>None\<close>. An error of \<open>ClearHalt\<close> is logged and dropped. The backoff stays at most
  one second, so doubling it cannot overflow the 64-bit duration.
\<close>

partial_function (option) Read_loop ::
  "usb_device \<Rightarrow> nat \<Rightarrow> int \<Rightarrow> usbConn \<Rightarrow> usb_event list
     \<Rightarrow> (int \<times> error option \<times> usbConn \<times> usb_event list) option" where
  "Read_loop dev wanted backoff conn tr =
     (case Recv dev (iface conn) of (n, err, ifc1) \<Rightarrow>
        let conn1 = conn\<lparr>iface := ifc1, cntRecv := cntRecv conn + n\<rparr>;
            tr1 = tr @ [EvRecv wanted]
        in if n \<noteq> 0 \<or> err \<noteq> None then Some (n, err, conn1, tr1)
           else
             (case ClearHalt dev (iface conn1) of (err', ifc2) \<Rightarrow>
                let conn2 = conn1\<lparr>iface := ifc2\<rparr>;
                    tr2 = tr1 @ [EvClearHalt, EvSleep backoff];
                    backoff1 = backoff * 2;
                    backoff2 = (if backoff1 > Millisecond * 1000 then Millisecond * 1000
                                else backoff1)
                in Read_loop dev wanted backoff2 conn2 tr2))"

declare Read_loop.simps [code]

text \<open>
  \<open>usbConn.Read\<close>: \<open>beginRead\<close>, the alignment, the loop from a backoff of 100 ms,
  and the deferred \<open>doneRead\<close> on the way out. It returns the byte count, the error, the
  state tracker, the connection and the events.
\<close>

definition usbConn_Read ::
  "usb_device \<Rightarrow> usbConnState \<Rightarrow> usbConn \<Rightarrow> 'a list
     \<Rightarrow> (int \<times> error option \<times> usbConnState \<times> usbConn \<times> usb_event list) outcome" where
  "usbConn_Read dev state conn b =
     (case beginRead state (index conn) of
        Panics s \<Rightarrow> Panics s
      | Hangs \<Rightarrow> Hangs
      | Returns state1 \<Rightarrow>
          (case Read_loop dev (length (Read_buf b)) (Millisecond * 100) conn [] of
             None \<Rightarrow> Hangs
           | Some (n, err, conn1, tr) \<Rightarrow>
               (case doneRead state1 (index conn) of
                  Panics s \<Rightarrow> Panics s
                | Hangs \<Rightarrow> Hangs
                | Returns state2 \<Rightarrow> Returns (n, err, state2, conn1, tr))))"

text \<open>
  \<open>usbConn.Write\<close>: one bulk-out transfer of the whole buffer, between \<open>beginWrite\<close>
  and the deferred \<open>doneWrite\<close>.
\<close>

definition Send :: "usb_device \<Rightarrow> UsbInterface \<Rightarrow> int \<times> error option \<times> UsbInterface" where
  "Send dev ifc =
     (case send_result dev (sends ifc) of
        (n, err) \<Rightarrow> (n, err, ifc\<lparr>sends := sends ifc + 1\<rparr>))"

definition usbConn_Write ::
  "usb_device \<Rightarrow> usbConnState \<Rightarrow> usbConn \<Rightarrow> 'a list
     \<Rightarrow> (int \<times> error option \<times> usbConnState \<times> usbConn) outcome" where
  "usbConn_Write dev state conn b =
     (case beginWrite state (index conn) of
        Panics s \<Rightarrow> Panics s
      | Hangs \<Rightarrow> Hangs
      | Returns state1 \<Rightarrow>
          (case Send dev (iface conn) of (n, err, ifc1) \<Rightarrow>
             (case doneWrite state1 (index conn) of
                Panics s \<Rightarrow> Panics s
              | Hangs \<Rightarrow> Hangs
              | Returns state2 \<Rightarrow>
                  Returns (n, err, state2,
                           conn\<lparr>iface := ifc1, cntSent := cntSent conn + n\<rparr>))))"

text \<open>
  The backoff as the specification words it: 100 ms before the first retry, doubled at
  each further zero-read, at most one second; and the events of \<open>k\<close> zero-reads in a
  row, each a transfer, a clear-halt and a sleep.
\<close>

definition spec_backoff :: "nat \<Rightarrow> int" where
  "spec_backoff j = min (100 * 2 ^ j * Millisecond) (1000 * Millisecond)"

definition zero_reads :: "nat \<Rightarrow> nat \<Rightarrow> usb_event list" where
  "zero_reads wanted k =
     concat (map (\<lambda>j. [EvRecv wanted, EvClearHalt, EvSleep (spec_backoff j)]) [0..<k])"

text \<open>
  An example device, whose first three bulk-in transfers succeed with zero bytes and
  whose later ones deliver seven bytes, and a fresh connection of index 0.
\<close>

definition example_device :: usb_device where
  "example_device =
     \<lparr>recv_result = (\<lambda>k. if k < 3 then (0, None) else (7, None)),
      clear_halt_result = (\<lambda>k. None),
      send_result = (\<lambda>k. (0, None))\<rparr>"

definition example_conn :: usbConn where
  "example_conn =
     \<lparr>index = 0, iface = \<lparr>recvs = 0, halts = 0, sends = 0, closed = False\<rparr>,
      reader = [], cntRecv = 0, cntSent = 0\<rparr>"

subsection \<open>UsbTransport: the pool of connections\<close>

text \<open>
  The fields of \<open>UsbTransport\<close> that the transactions use. A \<open>*usbConn\<close> is an
  address, and \<open>conns\<close> gives the connection stored at each address. \<open>connPool\<close> is
  the content of the buffered channel, oldest first, and \<open>connPool_cap\<close> its capacity.
  \<open>shutdown\<close> says whether the channel of that name was closed. Sending on
  \<open>connReleased\<close> is non-blocking and changes no field; it is left out with the
  logger, the device handle and the device's address and info.
\<close>

record UsbTransport =
  connPool :: "nat list"
  connPool_cap :: nat
  connList :: "nat list"
  conns :: "nat \<Rightarrow> usbConn"
  shutdown :: bool
  connstate :: usbConnState

definition connInUse :: "UsbTransport \<Rightarrow> nat" where
  "connInUse transport = connPool_cap transport - length (connPool transport)"

text \<open>
  \<open>usbConnGet\<close> is one \<open>select\<close> over three receives. A Go \<open>select\<close> takes one of
  the communications that can proceed, chosen at random when there are several, and
  waits when there is none. The model lists the results of the cases that can proceed,
  in the order of the source: the call may produce any element of the list, and the
  empty list is a call that waits. A context is the error its \<open>Err\<close> reports once
  \<open>Done\<close> is closed, or \<open>None\<close> before that.
\<close>

definition usbConnGet ::
  "UsbTransport \<Rightarrow> error option \<Rightarrow> (error + nat \<times> UsbTransport) outcome list" where
  "usbConnGet transport ctx =
     (if shutdown transport then [Returns (Inl ErrShutdown)] else [])
     @ (case ctx of Some e \<Rightarrow> [Returns (Inl e)] | None \<Rightarrow> [])
     @ (case connPool transport of
          [] \<Rightarrow> []
        | conn # rest \<Rightarrow>
            [case gotConn (connstate transport) (index (conns transport conn)) of
               Returns state \<Rightarrow>
                 Returns (Inr (conn, transport\<lparr>connPool := rest, connstate := state\<rparr>))
             | Panics s \<Rightarrow> Panics s
             | Hangs \<Rightarrow> Hangs])"

text \<open>
  \<open>usbConn.put\<close>: reset the buffered reader, zero the byte counters, tell the state
  tracker, send the connection to the pool. The send waits for ever on a full pool.
\<close>

definition put :: "UsbTransport \<Rightarrow> nat \<Rightarrow> UsbTransport outcome" where
  "put transport conn =
     (let c = (conns transport conn)\<lparr>reader := [], cntRecv := 0, cntSent := 0\<rparr>;
          t1 = transport\<lparr>conns := (conns transport)(conn := c)\<rparr>
      in case putConn (connstate t1) (index c) of
           Panics s \<Rightarrow> Panics s
         | Hangs \<Rightarrow> Hangs
         | Returns state \<Rightarrow>
             if length (connPool t1) < connPool_cap t1
             then Returns (t1\<lparr>connstate := state, connPool := connPool t1 @ [conn]\<rparr>)
             else Hangs)"

text \<open>\<open>usbConn.destroy\<close> closes the interface of the connection.\<close>

definition destroy :: "UsbTransport \<Rightarrow> nat \<Rightarrow> UsbTransport" where
  "destroy transport conn =
     (let c = conns transport conn
      in transport\<lparr>conns := (conns transport)(conn := c\<lparr>iface := (iface c)\<lparr>closed := True\<rparr>\<rparr>)\<rparr>)"

subsection \<open>Requests, bodies and the HTTP library\<close>

text \<open>
  A body handed in from outside (the caller's request body, the body of a parsed
  response) is a stream: the bytes it will still deliver, and how it ends once they are
  delivered, with an error (\<open>io.EOF\<close> or another), or with a \<open>Read\<close> that never
  returns (\<open>None\<close>). \<open>stream_Read s k\<close> is a \<open>Read\<close> into a buffer of \<open>k\<close>
  bytes.
\<close>

record stream =
  pending :: "byte list"
  ending :: "error option"
  close_result :: "error option"
  stream_closed :: bool

definition stream_Read :: "stream \<Rightarrow> nat \<Rightarrow> (byte list \<times> error option \<times> stream) option" where
  "stream_Read s k =
     (if pending s = []
      then (case ending s of None \<Rightarrow> None | Some e \<Rightarrow> Some ([], Some e, s))
      else Some (take k (pending s), None, s\<lparr>pending := drop k (pending s)\<rparr>))"

definition stream_Close :: "stream \<Rightarrow> error option \<times> stream" where
  "stream_Close s = (close_result s, s\<lparr>stream_closed := True\<rparr>)"

text \<open>The struct \<open>usbRequestBodyWrapper\<close>, without its logger and session number.\<close>

record usbRequestBodyWrapper =
  rq_count :: int
  rq_body :: stream
  rq_drained :: bool

definition usbRequestBodyWrapper_Read ::
  "usbRequestBodyWrapper \<Rightarrow> nat
     \<Rightarrow> (byte list \<times> error option \<times> usbRequestBodyWrapper) option" where
  "usbRequestBodyWrapper_Read wrap k =
     (case stream_Read (rq_body wrap) k of
        None \<Rightarrow> None
      | Some (bs, err, s) \<Rightarrow>
          let wrap1 = wrap\<lparr>rq_body := s, rq_count := rq_count wrap + int (length bs)\<rparr>
          in (case err of
                None \<Rightarrow> Some (bs, None, wrap1)
              | Some e \<Rightarrow> Some (bs, Some ErrEOF, wrap1\<lparr>rq_drained := True\<rparr>)))"

definition usbRequestBodyWrapper_Close ::
  "usbRequestBodyWrapper \<Rightarrow> error option \<times> usbRequestBodyWrapper" where
  "usbRequestBodyWrapper_Close wrap =
     (case stream_Close (rq_body wrap) of (err, s) \<Rightarrow> (err, wrap\<lparr>rq_body := s\<rparr>))"

text \<open>
  The body of the outbound request is the wrapper, or after the prefetch the
  \<open>ioutil.NopCloser\<close> of a \<open>bytes.Buffer\<close>.
\<close>

datatype out_body = Wrapped usbRequestBodyWrapper | NopCloser "byte list"

definition out_body_Read ::
  "out_body \<Rightarrow> nat \<Rightarrow> (byte list \<times> error option \<times> out_body) option" where
  "out_body_Read b k =
     (case b of
        Wrapped wrap \<Rightarrow>
          (case usbRequestBodyWrapper_Read wrap k of
             None \<Rightarrow> None
           | Some (bs, err, wrap1) \<Rightarrow> Some (bs, err, Wrapped wrap1))
      | NopCloser buf \<Rightarrow>
          if buf = [] then Some ([], Some ErrEOF, b)
          else Some (take k buf, None, NopCloser (drop k buf)))"

definition out_body_Close :: "out_body \<Rightarrow> error option \<times> out_body" where
  "out_body_Close b =
     (case b of
        Wrapped wrap \<Rightarrow>
          (case usbRequestBodyWrapper_Close wrap of (err, wrap1) \<Rightarrow> (err, Wrapped wrap1))
      | NopCloser buf \<Rightarrow> (None, b))"

text \<open>
  \<open>io.CopyN(buf, src, n)\<close> of the Go library, into an empty \<open>bytes.Buffer\<close>: the
  buffer reads from an \<open>io.LimitedReader\<close> over \<open>src\<close> until an error. The limited
  reader reports \<open>io.EOF\<close> once \<open>n\<close> bytes have passed and never asks for more than
  the bytes still allowed; the buffer offers \<open>bytes.MinRead = 512\<close> bytes of room or
  more at each \<open>Read\<close> (512 here) and takes \<open>io.EOF\<close> for the end. \<open>CopyN\<close> then
  reports no error when \<open>n\<close> bytes were copied, and \<open>io.EOF\<close> when fewer were copied
  without an error. A source that answers no bytes and no error for ever keeps the loop
  running.
\<close>

definition MinRead :: nat where
  "MinRead = 512"

partial_function (option) CopyN_loop ::
  "out_body \<Rightarrow> nat \<Rightarrow> byte list \<Rightarrow> (byte list \<times> error option \<times> out_body) option" where
  "CopyN_loop src N buf =
     (if N = 0 then Some (buf, None, src)
      else
        (case out_body_Read src (min N MinRead) of
           None \<Rightarrow> None
         | Some (bs, err, src1) \<Rightarrow>
             (case err of
                None \<Rightarrow> CopyN_loop src1 (N - length bs) (buf @ bs)
              | Some e \<Rightarrow>
                  if e = ErrEOF then Some (buf @ bs, None, src1)
                  else Some (buf @ bs, Some e, src1))))"

declare CopyN_loop.simps [code]

definition CopyN :: "out_body \<Rightarrow> int \<Rightarrow> (byte list \<times> error option \<times> out_body) option" where
  "CopyN src n =
     (case CopyN_loop src (nat n) [] of
        None \<Rightarrow> None
      | Some (buf, err, src1) \<Rightarrow>
          if int (length buf) = n then Some (buf, None, src1)
          else if int (length buf) < n \<and> err = None then Some (buf, Some ErrEOF, src1)
          else Some (buf, err, src1))"

text \<open>
  The fields of \<open>http.Request\<close> that the transport reads or writes. \<open>Header\<close> is a
  Go map, a reference: the address of the map in a store of header maps, or \<open>None\<close>
  for the nil map. \<open>Cancel\<close> says whether the channel of that name is set, \<open>ctx\<close> is
  the context of the request. \<open>ContentLength\<close> is an \<open>int64\<close> that is only compared
  and assigned. The type of the body is a parameter: a stream for the caller's request,
  an \<open>out_body\<close> for the outbound one.
\<close>

type_synonym Header = "string \<Rightarrow> string list option"

record 'b Request =
  Header :: "nat option"
  Close :: bool
  ContentLength :: int
  Body :: "'b option"
  Cancel :: bool
  ctx :: "error option"

record 'b Response =
  StatusCode :: int
  RespBody :: 'b

text \<open>The struct \<open>usbResponseBodyWrapper\<close>, without its logger and session number.\<close>

record usbResponseBodyWrapper =
  rsp_body :: stream
  rsp_conn :: nat
  rsp_count :: int
  rsp_drained :: bool

text \<open>
  The two calls into \<open>net/http\<close> that do the USB traffic of a transaction are
  parameters of the model: \<open>outreq.Write(conn)\<close>, which answers an error or none, and
  \<open>http.ReadResponse(conn.reader, outreq)\<close>, which answers an error or a response.
  Both leave the connection in some new state.
\<close>

record http_lib =
  Request_Write :: "(nat \<Rightarrow> Header) \<Rightarrow> out_body Request \<Rightarrow> usbConn \<Rightarrow> error option \<times> usbConn"
  ReadResponse :: "usbConn \<Rightarrow> out_body Request \<Rightarrow> (error + stream Response) \<times> usbConn"

text \<open>
  Modelled from the spec: the HTTP/1.1 serializer behind \<open>outreq.Write\<close> is the
  platform's HTTP library and not part of the transport source. The specification has
  it frame a body of known length by a \<open>Content-Length\<close> header with that length and
  no chunked framing, and a body of unknown length by chunked transfer-encoding with no
  \<open>Content-Length\<close> header; a request without a body, or with a declared length of
  zero, carries no body.
\<close>

datatype framing = NoBody | ContentLengthFramed int | Chunked

definition framing :: "'b Request \<Rightarrow> framing" where
  "framing r =
     (if Body r = None \<or> ContentLength r = 0 then NoBody
      else if ContentLength r > 0 then ContentLengthFramed (ContentLength r)
      else Chunked)"

subsection \<open>RoundTripWithSession\<close>

text \<open>
  The head of \<open>RoundTripWithSession\<close>, up to the wrapping of the body.
  \<open>rq.WithContext\<close> copies the request struct, so \<open>outreq.Header\<close> is the same map
  as \<open>rq.Header\<close>: the three header operations write to the store, at the address
  that both requests hold. \<open>Header.Del\<close> on a nil map does nothing, \<open>Header.Set\<close> on
  a nil map panics.
\<close>

definition preprocess ::
  "(nat \<Rightarrow> Header) \<Rightarrow> stream Request \<Rightarrow> ((nat \<Rightarrow> Header) \<times> out_body Request) outcome" where
  "preprocess hs rq =
     (case Header rq of
        None \<Rightarrow> Panics ''assignment to entry in nil map''
      | Some a \<Rightarrow>
          let h1 = (hs a)(''Expect'' := None);
              h2 = h1(''Connection'' \<mapsto> [''close'']);
              h3 = (if h2 ''User-Agent'' = None then h2(''User-Agent'' \<mapsto> [''ipp-usb''])
                    else h2)
          in Returns (hs(a := h3),
               \<lparr>Header = Some a,
                Close = True,
                ContentLength = ContentLength rq,
                Body = (case Body rq of
                          None \<Rightarrow> None
                        | Some body \<Rightarrow>
                            Some (Wrapped \<lparr>rq_count = 0, rq_body = body, rq_drained = False\<rparr>)),
                Cancel = False,
                ctx = None\<rparr>))"

text \<open>
  The \<open>switch\<close> on \<open>outreq.ContentLength\<close>. It answers the error that
  \<open>RoundTripWithSession\<close> returns at once, or the request to go on with. Reading a
  nil body panics. The wrapper closed after the prefetch is dropped with the body it
  wraps.
\<close>

definition shape_body :: "out_body Request \<Rightarrow> (error + out_body Request) outcome" where
  "shape_body outreq =
     (if ContentLength outreq \<le> 0 then Returns (Inr outreq)
      else if ContentLength outreq < 16384 then
        (case Body outreq of
           None \<Rightarrow> Panics ''nil pointer dereference''
         | Some body \<Rightarrow>
             (case CopyN body (ContentLength outreq) of
                None \<Rightarrow> Hangs
              | Some (buf, err, body1) \<Rightarrow>
                  (case err of
                     Some e \<Rightarrow> Returns (Inl e)
                   | None \<Rightarrow>
                       (case out_body_Close body1 of (cerr, body2) \<Rightarrow>
                          Returns (Inr (outreq\<lparr>Body := Some (NopCloser buf)\<rparr>))))))
      else Returns (Inr (outreq\<lparr>ContentLength := - 1\<rparr>)))"

text \<open>
  The rest of \<open>RoundTripWithSession\<close>, from the allocated connection on: write the
  request, read the response, wrap the response body.
\<close>

definition exchange ::
  "http_lib \<Rightarrow> (nat \<Rightarrow> Header) \<Rightarrow> UsbTransport \<Rightarrow> nat \<Rightarrow> out_body Request
     \<Rightarrow> ((error + usbResponseBodyWrapper Response) \<times> UsbTransport) outcome" where
  "exchange lib hs transport conn outreq =
     (case Request_Write lib hs outreq (conns transport conn) of (werr, c1) \<Rightarrow>
        (let t1 = transport\<lparr>conns := (conns transport)(conn := c1)\<rparr>
         in (case werr of
               Some err \<Rightarrow>
                 (case put t1 conn of
                    Returns t2 \<Rightarrow> Returns (Inl err, t2)
                  | Panics s \<Rightarrow> Panics s
                  | Hangs \<Rightarrow> Hangs)
             | None \<Rightarrow>
                 (case ReadResponse lib (conns t1 conn) outreq of (res, c2) \<Rightarrow>
                    (let t2 = t1\<lparr>conns := (conns t1)(conn := c2)\<rparr>
                     in (case res of
                           Inl err \<Rightarrow>
                             (case put t2 conn of
                                Returns t3 \<Rightarrow> Returns (Inl err, t3)
                              | Panics s \<Rightarrow> Panics s
                              | Hangs \<Rightarrow> Hangs)
                         | Inr resp \<Rightarrow>
                             Returns
                               (Inr \<lparr>StatusCode = StatusCode resp,
                                     RespBody =
                                       \<lparr>rsp_body = RespBody resp, rsp_conn = conn,
                                        rsp_count = 0, rsp_drained = False\<rparr>\<rparr>,
                                t2)))))))"

text \<open>
  \<open>RoundTripWithSession\<close>, on the store of header maps and the transport. It lists
  the runs the call may take, one for each result \<open>usbConnGet\<close> may produce; a run
  returns the response or the error, the transport and the store. The session number
  only labels log lines and is left out.
\<close>

definition RoundTripWithSession ::
  "http_lib \<Rightarrow> (nat \<Rightarrow> Header) \<Rightarrow> UsbTransport \<Rightarrow> stream Request
     \<Rightarrow> ((error + usbResponseBodyWrapper Response) \<times> UsbTransport \<times> (nat \<Rightarrow> Header))
          outcome list" where
  "RoundTripWithSession lib hs transport rq =
     (case preprocess hs rq of
        Panics s \<Rightarrow> [Panics s]
      | Hangs \<Rightarrow> [Hangs]
      | Returns (hs1, outreq) \<Rightarrow>
          (case shape_body outreq of
             Panics s \<Rightarrow> [Panics s]
           | Hangs \<Rightarrow> [Hangs]
           | Returns (Inl err) \<Rightarrow> [Returns (Inl err, transport, hs1)]
           | Returns (Inr outreq1) \<Rightarrow>
               (case usbConnGet transport (ctx rq) of
                  [] \<Rightarrow> [Hangs]
                | acqs \<Rightarrow>
                    map (\<lambda>acq.
                      case acq of
                        Panics s \<Rightarrow> Panics s
                      | Hangs \<Rightarrow> Hangs
                      | Returns (Inl err) \<Rightarrow> Returns (Inl err, transport, hs1)
                      | Returns (Inr (conn, t1)) \<Rightarrow>
                          (case exchange lib hs1 t1 conn outreq1 of
                             Returns (res, t2) \<Rightarrow> Returns (res, t2, hs1)
                           | Panics s \<Rightarrow> Panics s
                           | Hangs \<Rightarrow> Hangs)) acqs)))"

subsection \<open>usbResponseBodyWrapper\<close>

definition usbResponseBodyWrapper_Read ::
  "usbResponseBodyWrapper \<Rightarrow> nat
     \<Rightarrow> (byte list \<times> error option \<times> usbResponseBodyWrapper) option" where
  "usbResponseBodyWrapper_Read wrap k =
     (case stream_Read (rsp_body wrap) k of
        None \<Rightarrow> None
      | Some (bs, err, s) \<Rightarrow>
          let wrap1 = wrap\<lparr>rsp_body := s, rsp_count := rsp_count wrap + int (length bs)\<rparr>
          in if err \<noteq> None then Some (bs, err, wrap1\<lparr>rsp_drained := True\<rparr>)
             else Some (bs, err, wrap1))"

text \<open>
  \<open>io.Copy(ioutil.Discard, body)\<close> of the Go library: read into a buffer of 8192 bytes
  until an error, and report the error unless it is \<open>io.EOF\<close>.
\<close>

partial_function (option) Copy_Discard :: "stream \<Rightarrow> (error option \<times> stream) option" where
  "Copy_Discard s =
     (case stream_Read s 8192 of
        None \<Rightarrow> None
      | Some (bs, err, s1) \<Rightarrow>
          (case err of
             None \<Rightarrow> Copy_Discard s1
           | Some e \<Rightarrow> Some (if e = ErrEOF then None else Some e, s1)))"

declare Copy_Discard.simps [code]

text \<open>
  The goroutine that \<open>Close\<close> starts for a body that was not drained, run against the
  transport as it is by then: copy the rest of the body to \<open>ioutil.Discard\<close>, close
  the body, \<open>put\<close> the connection. A panic in it ends the process (\<open>Log.Panic\<close>).
\<close>

definition drain ::
  "usbResponseBodyWrapper \<Rightarrow> UsbTransport \<Rightarrow> (usbResponseBodyWrapper \<times> UsbTransport) outcome" where
  "drain wrap transport =
     (case Copy_Discard (rsp_body wrap) of
        None \<Rightarrow> Hangs
      | Some (err, s) \<Rightarrow>
          (case stream_Close s of (cerr, s1) \<Rightarrow>
             (case put transport (rsp_conn wrap) of
                Returns t1 \<Rightarrow> Returns (wrap\<lparr>rsp_body := s1\<rparr>, t1)
              | Panics m \<Rightarrow> Panics m
              | Hangs \<Rightarrow> Hangs)))"

text \<open>
  \<open>usbResponseBodyWrapper.Close\<close> answers its error (always nil), the wrapper, the
  transport, and the wrappers for which it started a \<open>drain\<close> goroutine.
\<close>

definition usbResponseBodyWrapper_Close ::
  "usbResponseBodyWrapper \<Rightarrow> UsbTransport
     \<Rightarrow> (error option \<times> usbResponseBodyWrapper \<times> UsbTransport \<times> usbResponseBodyWrapper list)
          outcome" where
  "usbResponseBodyWrapper_Close wrap transport =
     (if rsp_drained wrap then
        (case stream_Close (rsp_body wrap) of (cerr, s1) \<Rightarrow>
           (case put transport (rsp_conn wrap) of
              Returns t1 \<Rightarrow> Returns (None, wrap\<lparr>rsp_body := s1\<rparr>, t1, [])
            | Panics m \<Rightarrow> Panics m
            | Hangs \<Rightarrow> Hangs))
      else Returns (None, wrap, transport, [wrap]))"

text \<open>
  Examples: a transport of two connections, both in the pool; a library whose write
  fails, one whose response cannot be parsed, and one that answers status 200 with a
  body of four bytes.
\<close>

definition example_transport :: UsbTransport where
  "example_transport =
     \<lparr>connPool = [0, 1], connPool_cap = 2, connList = [0, 1],
      conns = (\<lambda>a. example_conn\<lparr>index := a\<rparr>),
      shutdown = False,
      connstate = newUsbConnState 2\<rparr>"

definition example_stream :: "byte list \<Rightarrow> stream" where
  "example_stream bs =
     \<lparr>pending = bs, ending = Some ErrEOF, close_result = None, stream_closed = False\<rparr>"

definition example_request :: "int \<Rightarrow> byte list \<Rightarrow> stream Request" where
  "example_request n bs =
     \<lparr>Header = Some 0, Close = False, ContentLength = n,
      Body = Some (example_stream bs), Cancel = False, ctx = None\<rparr>"

definition example_headers :: "nat \<Rightarrow> Header" where
  "example_headers = (\<lambda>a. [''Expect'' \<mapsto> [''100-continue''], ''Connection'' \<mapsto> [''keep-alive'']])"

definition lib_write_fails :: http_lib where
  "lib_write_fails =
     \<lparr>Request_Write = (\<lambda>hs r c. (Some (ErrIO ''send''), c\<lparr>cntSent := 10\<rparr>)),
      ReadResponse = (\<lambda>c r. (Inl (ErrIO ''recv''), c))\<rparr>"

definition lib_read_fails :: http_lib where
  "lib_read_fails =
     \<lparr>Request_Write = (\<lambda>hs r c. (None, c\<lparr>cntSent := 10\<rparr>)),
      ReadResponse = (\<lambda>c r. (Inl (ErrIO ''malformed HTTP response''), c\<lparr>cntRecv := 7\<rparr>))\<rparr>"

definition lib_ok :: http_lib where
  "lib_ok =
     \<lparr>Request_Write = (\<lambda>hs r c. (None, c\<lparr>cntSent := 10\<rparr>)),
      ReadResponse = (\<lambda>c r.
        (Inr \<lparr>StatusCode = 200, RespBody = example_stream [97, 98, 99, 100]\<rparr>,
         c\<lparr>cntRecv := 42\<rparr>))\<rparr>"

text \<open>
  The transport after one release of the connection at address \<open>conn\<close>: its buffered
  reader empty, its byte counters zero, its alloc counter one less, and the address at
  the end of the pool.
\<close>

definition released :: "UsbTransport \<Rightarrow> nat \<Rightarrow> UsbTransport" where
  "released transport conn =
     (let c = (conns transport conn)\<lparr>reader := [], cntRecv := 0, cntSent := 0\<rparr>
      in transport
           \<lparr>conns := (conns transport)(conn := c),
            connstate := (connstate transport)
              \<lparr>alloc := (alloc (connstate transport))
                 [index c := alloc (connstate transport) ! index c - 1]\<rparr>,
            connPool := connPool transport @ [conn]\<rparr>)"

definition example_headers1 :: "nat \<Rightarrow> Header" where
  "example_headers1 =
     example_headers
       (0 := [''Connection'' \<mapsto> [''close''], ''User-Agent'' \<mapsto> [''ipp-usb'']])"

definition example_outreq :: "out_body Request" where
  "example_outreq =
     \<lparr>Header = Some 0, Close = True, ContentLength = 0,
      Body = Some (Wrapped \<lparr>rq_count = 0, rq_body = example_stream [], rq_drained = False\<rparr>),
      Cancel = False, ctx = None\<rparr>"

definition example_transport1 :: UsbTransport where
  "example_transport1 =
     example_transport
       \<lparr>connPool := [1],
        connstate := \<lparr>alloc = [1, 0], read = [0, 0], write' = [0, 0]\<rparr>\<rparr>"

definition example_wrap :: usbResponseBodyWrapper where
  "example_wrap =
     \<lparr>rsp_body = example_stream [97, 98, 99, 100], rsp_conn = 0, rsp_count = 0,
      rsp_drained = False\<rparr>"

section \<open>Properties\<close>

subsection \<open>The string form of the state tracker\<close>

lemma spec_join_snoc:
  "spec_join (gs @ [g]) = (if gs = [] then g else spec_join gs @ [CHR '' ''] @ g)"
  by (induction gs rule: spec_join.induct) auto

lemma spec_join_empty_iff:
  "\<forall>g \<in> set gs. g \<noteq> [] \<Longrightarrow> spec_join gs = [] \<longleftrightarrow> gs = []"
  by (induction gs rule: spec_join.induct) auto

lemma spec_flags_nonempty: "spec_flags t \<noteq> []"
  by (simp add: spec_flags_def split: prod.splits)

lemma String_body_step:
  assumes "i < length (alloc state)" "length (read state) = length (alloc state)"
    "length (write' state) = length (alloc state)"
  shows "String_body state i (spec_join (map spec_flags (take i (counters state))),
            length (filter spec_used (take i (counters state))))
         = Returns (spec_join (map spec_flags (take (Suc i) (counters state))),
            length (filter spec_used (take (Suc i) (counters state))))"
proof -
  have len: "i < length (counters state)"
    using assms by (simp add: counters_def)
  have nth: "counters state ! i = (alloc state ! i, read state ! i, write' state ! i)"
    using assms by (simp add: counters_def)
  have tk: "take (Suc i) (counters state) = take i (counters state) @ [counters state ! i]"
    using len by (simp add: take_Suc_conv_app_nth)
  have emp: "spec_join (map spec_flags (take i (counters state))) = [] \<longleftrightarrow> i = 0"
    using len by (subst spec_join_empty_iff) (auto simp: spec_flags_nonempty)
  show ?thesis
    using assms emp len
    by (auto simp add: String_body_def tk nth spec_join_snoc Let_def or_eq_0_iff
        spec_flags_def spec_used_def)
qed

lemma String_loop_upt:
  assumes "length (read state) = length (alloc state)"
    "length (write' state) = length (alloc state)"
  shows "k \<le> length (alloc state) \<Longrightarrow>
     String_loop state [k..<length (alloc state)]
       (spec_join (map spec_flags (take k (counters state))),
        length (filter spec_used (take k (counters state))))
     = Returns (spec_join (map spec_flags (counters state)),
            length (filter spec_used (counters state)))"
proof (induction "length (alloc state) - k" arbitrary: k)
  case 0
  then have "k = length (alloc state)" by simp
  then show ?case using assms by (simp add: counters_def)
next
  case (Suc d)
  then have lt: "k < length (alloc state)" by simp
  then have upt: "[k..<length (alloc state)] = k # [Suc k..<length (alloc state)]"
    by (simp add: upt_conv_Cons)
  have "String_loop state [Suc k..<length (alloc state)]
       (spec_join (map spec_flags (take (Suc k) (counters state))),
        length (filter spec_used (take (Suc k) (counters state))))
     = Returns (spec_join (map spec_flags (counters state)),
            length (filter spec_used (counters state)))"
    using Suc lt by (intro Suc.hyps(1)) auto
  then show ?case
    using String_body_step [OF lt assms] by (simp add: upt)
qed

text \<open>
  Claim C8, as the code has it. For a tracker whose three slices have the same length
  (as \<open>newUsbConnState\<close> makes them), the string form is the decimal number of
  connection indices whose counters are not all zero, then \<open>" in use: "\<close>, then one
  group of three characters per connection index (\<open>a\<close> or \<open>-\<close> for the alloc counter,
  \<open>r\<close> or \<open>-\<close> for the read counter, \<open>w\<close> or \<open>-\<close> for the write counter), with a
  single space between two consecutive groups.
\<close>

theorem String_form:
  assumes "length (read state) = length (alloc state)"
    and "length (write' state) = length (alloc state)"
  shows "String state =
     Returns (Sprintf_d (length (filter spec_used (counters state))) @ '' in use: ''
          @ spec_join (map spec_flags (counters state)))"
  using String_loop_upt [OF assms, of 0] by (simp add: String_def)

theorem String_form_witness:
  "String \<lparr>alloc = [1, 0, 0], read = [0, 0, 2], write' = [0, 0, 0]\<rparr>
     = Returns ''2 in use: a-- --- -r-''"
  using String_form [of "\<lparr>alloc = [1, 0, 0], read = [0, 0, 2], write' = [0, 0, 0]\<rparr>"]
  by (simp add: counters_def spec_flags_def spec_used_def Sprintf_d.simps digit_char_def)

text \<open>
  The claim as stated gives the flags exactly three characters per connection index.
  With two connections the code prints seven characters of flags, the two groups and
  the space between them, not the six of the two groups alone.
\<close>

theorem String_flags_counterexample:
  "String \<lparr>alloc = [1, 0], read = [0, 0], write' = [0, 1]\<rparr> = Returns ''2 in use: a-- --w''
   \<and> ''2 in use: a-- --w''
       \<noteq> Sprintf_d 2 @ '' in use: '' @ concat (map spec_flags [(1, 0, 0), (0, 0, 1)])"
  by (simp add: String_def String_body_def upt_rec Sprintf_d.simps digit_char_def
      spec_flags_def)

subsection \<open>Reading from a connection\<close>

lemma and_not_mask_int: "(k::int) AND NOT (mask n) = push_bit n (drop_bit n k)"
proof (rule bit_eqI)
  fix i
  show "bit (k AND NOT (mask n)) i = bit (push_bit n (drop_bit n k)) i"
  proof (cases "n \<le> i")
    case True
    then show ?thesis by (simp add: bit_simps)
  next
    case False
    then show ?thesis by (simp add: bit_simps)
  qed
qed

lemma and_not_511: "(k::int) AND NOT 511 = 512 * (k div 512)"
proof -
  have "(511::int) = mask 9" by (simp add: mask_eq_exp_minus_1)
  then have "k AND NOT 511 = push_bit 9 (drop_bit 9 k)"
    by (simp only: and_not_mask_int)
  then show ?thesis by (simp add: push_bit_eq_mult drop_bit_eq_div)
qed

lemma Read_buf_eq:
  "Read_buf b = (if 512 \<le> length b then take (512 * (length b div 512)) b else b)"
proof -
  have "nat (int (length b) AND NOT 511) = 512 * (length b div 512)"
    unfolding and_not_511 by (simp add: nat_mult_distrib nat_div_distrib)
  then show ?thesis unfolding Read_buf_def Let_def by simp
qed

lemma spec_backoff_0: "spec_backoff 0 = Millisecond * 100"
  by (simp add: spec_backoff_def Millisecond_def)

lemma zero_reads_Suc:
  "zero_reads wanted (Suc k)
     = zero_reads wanted k @ [EvRecv wanted, EvClearHalt, EvSleep (spec_backoff k)]"
  by (simp add: zero_reads_def)



lemma spec_backoff_Suc:
  "spec_backoff (Suc j) =
     (if spec_backoff j * 2 > Millisecond * 1000 then Millisecond * 1000
      else spec_backoff j * 2)"
  by (simp add: spec_backoff_def Millisecond_def min_def)

lemma Read_loop_zero_reads:
  "\<forall>j<k. recv_result dev (recvs (iface conn) + j) = (0, None) \<Longrightarrow>
   recv_result dev (recvs (iface conn) + k) = (n, err) \<Longrightarrow>
   n \<noteq> 0 \<or> err \<noteq> None \<Longrightarrow>
   Read_loop dev wanted (spec_backoff i) conn (tr @ zero_reads wanted i)
     = Some (n, err,
         conn\<lparr>iface := (iface conn)\<lparr>recvs := recvs (iface conn) + k + 1,
                                     halts := halts (iface conn) + k\<rparr>,
              cntRecv := cntRecv conn + n\<rparr>,
         tr @ zero_reads wanted (i + k) @ [EvRecv wanted])"
proof (induction k arbitrary: conn i)
  case 0
  then show ?case
    by (subst Read_loop.simps) (auto simp add: Recv_def Let_def)
next
  case (Suc k)
  let ?conn2 = "conn\<lparr>iface := (iface conn)\<lparr>recvs := recvs (iface conn) + 1,
                     halts := halts (iface conn) + 1\<rparr>\<rparr>"
  have first: "recv_result dev (recvs (iface conn)) = (0, None)"
    using Suc.prems(1) by (metis add.right_neutral zero_less_Suc)
  have rest: "\<forall>j<k. recv_result dev (recvs (iface ?conn2) + j) = (0, None)"
    using Suc.prems(1) by (auto simp add: less_Suc_eq_0_disj)
  have last: "recv_result dev (recvs (iface ?conn2) + k) = (n, err)"
    using Suc.prems(2) by simp
  have step: "Read_loop dev wanted (spec_backoff i) conn (tr @ zero_reads wanted i)
      = Read_loop dev wanted (spec_backoff (Suc i)) ?conn2 (tr @ zero_reads wanted (Suc i))"
    by (subst Read_loop.simps)
      (simp add: Recv_def ClearHalt_def Let_def first zero_reads_Suc spec_backoff_Suc)
  show ?case
    unfolding step
    using Suc.IH [OF rest last Suc.prems(3), of "Suc i"] by simp
qed



lemma Read_loop_never:
  assumes "Read_loop dev wanted backoff conn tr = Some y"
  shows "\<exists>j. recv_result dev j \<noteq> (0, None)"
proof (rule Read_loop.raw_induct
    [where P = "\<lambda>dev wanted backoff conn tr y. \<exists>j. recv_result dev j \<noteq> (0, None)", OF _ assms])
  fix Read_loop' dev wanted backoff conn tr y
  assume IH: "\<And>dev wanted backoff conn tr y. Read_loop' dev wanted backoff conn tr = Some y
      \<Longrightarrow> \<exists>j. recv_result dev j \<noteq> (0, None)"
    and body: "(case Recv dev (iface conn) of (n, err, ifc1) \<Rightarrow>
        let conn1 = conn\<lparr>iface := ifc1, cntRecv := cntRecv conn + n\<rparr>;
            tr1 = tr @ [EvRecv wanted]
        in if n \<noteq> 0 \<or> err \<noteq> None then Some (n, err, conn1, tr1)
           else
             (case ClearHalt dev (iface conn1) of (err', ifc2) \<Rightarrow>
                let conn2 = conn1\<lparr>iface := ifc2\<rparr>;
                    tr2 = tr1 @ [EvClearHalt, EvSleep backoff];
                    backoff1 = backoff * 2;
                    backoff2 = (if backoff1 > Millisecond * 1000 then Millisecond * 1000
                                else backoff1)
                in Read_loop' dev wanted backoff2 conn2 tr2)) = Some y"
  show "\<exists>j. recv_result dev j \<noteq> (0, None)"
  proof (cases "recv_result dev (recvs (iface conn)) = (0, None)")
    case True
    with body IH show ?thesis
      by (simp add: Recv_def ClearHalt_def Let_def)
  next
    case False
    then show ?thesis by blast
  qed
qed


lemma Read_loop_wanted:
  assumes "Read_loop dev wanted backoff conn tr = Some y"
  shows "(\<forall>m. EvRecv m \<in> set tr \<longrightarrow> m = wanted)
     \<longrightarrow> (\<forall>m. EvRecv m \<in> set (snd (snd (snd y))) \<longrightarrow> m = wanted)"
proof (rule Read_loop.raw_induct
    [where P = "\<lambda>dev wanted backoff conn tr y.
        (\<forall>m. EvRecv m \<in> set tr \<longrightarrow> m = wanted)
          \<longrightarrow> (\<forall>m. EvRecv m \<in> set (snd (snd (snd y))) \<longrightarrow> m = wanted)", OF _ assms])
  fix Read_loop' dev wanted backoff conn tr y
  assume IH: "\<And>dev wanted backoff conn tr y. Read_loop' dev wanted backoff conn tr = Some y
      \<Longrightarrow> (\<forall>m. EvRecv m \<in> set tr \<longrightarrow> m = wanted)
          \<longrightarrow> (\<forall>m. EvRecv m \<in> set (snd (snd (snd y))) \<longrightarrow> m = wanted)"
    and body: "(case Recv dev (iface conn) of (n, err, ifc1) \<Rightarrow>
        let conn1 = conn\<lparr>iface := ifc1, cntRecv := cntRecv conn + n\<rparr>;
            tr1 = tr @ [EvRecv wanted]
        in if n \<noteq> 0 \<or> err \<noteq> None then Some (n, err, conn1, tr1)
           else
             (case ClearHalt dev (iface conn1) of (err', ifc2) \<Rightarrow>
                let conn2 = conn1\<lparr>iface := ifc2\<rparr>;
                    tr2 = tr1 @ [EvClearHalt, EvSleep backoff];
                    backoff1 = backoff * 2;
                    backoff2 = (if backoff1 > Millisecond * 1000 then Millisecond * 1000
                                else backoff1)
                in Read_loop' dev wanted backoff2 conn2 tr2)) = Some y"
  show "(\<forall>m. EvRecv m \<in> set tr \<longrightarrow> m = wanted)
          \<longrightarrow> (\<forall>m. EvRecv m \<in> set (snd (snd (snd y))) \<longrightarrow> m = wanted)"
  proof (cases "recv_result dev (recvs (iface conn)) = (0, None)")
    case True
    let ?conn2 = "conn\<lparr>iface := (iface conn)\<lparr>recvs := recvs (iface conn) + 1,
                     halts := halts (iface conn) + 1\<rparr>\<rparr>"
    let ?b2 = "if backoff * 2 > Millisecond * 1000 then Millisecond * 1000 else backoff * 2"
    from body True
    have "Read_loop' dev wanted ?b2 ?conn2 (tr @ [EvRecv wanted] @ [EvClearHalt, EvSleep backoff]) = Some y"
      by (simp add: Recv_def ClearHalt_def Let_def)
    from IH [OF this] show ?thesis by simp
  next
    case False
    obtain n err where r: "recv_result dev (recvs (iface conn)) = (n, err)"
      by (cases "recv_result dev (recvs (iface conn))")
    with False have "n \<noteq> 0 \<or> err \<noteq> None" by auto
    with body r have "snd (snd (snd y)) = tr @ [EvRecv wanted]"
      by (auto simp add: Recv_def Let_def)
    then show ?thesis by simp
  qed
qed

lemma AddInt32_back:
  "i < length xs \<Longrightarrow> AddInt32 xs i 1 = Returns ys \<Longrightarrow> AddInt32 ys i (- 1) = Returns xs"
  by (auto simp add: AddInt32_def)

lemma begin_done_Read:
  "i < length (read state) \<Longrightarrow>
     \<exists>state1. beginRead state i = Returns state1 \<and> doneRead state1 i = Returns state"
  by (simp add: beginRead_def doneRead_def AddInt32_def)

lemma example_Read_loop:
  "Read_loop example_device 512 (Millisecond * 100) example_conn [] =
     Some (7, None,
       example_conn\<lparr>iface := \<lparr>recvs = 4, halts = 3, sends = 0, closed = False\<rparr>,
                    cntRecv := 7\<rparr>,
       [EvRecv 512, EvClearHalt, EvSleep (100 * Millisecond),
        EvRecv 512, EvClearHalt, EvSleep (200 * Millisecond),
        EvRecv 512, EvClearHalt, EvSleep (400 * Millisecond),
        EvRecv 512])"
  using Read_loop_zero_reads [of 3 example_device example_conn 7 None 512 0 "[]"]
  by (simp add: example_device_def example_conn_def zero_reads_def spec_backoff_def
      Millisecond_def upt_rec less_Suc_eq numeral_3_eq_3)

text \<open>
  Claim C5. A \<open>Read\<close> on a connection whose index the state tracker knows, against a
  device whose next \<open>k\<close> bulk-in transfers succeed with zero bytes and whose transfer
  after those gives a non-zero count or an error: the \<open>Read\<close> returns that count and
  error, having issued \<open>k + 1\<close> transfers of the aligned buffer and, after each of the
  \<open>k\<close> zero-reads, one clear-halt and one sleep before the retry. The sleeps are
  100 ms, 200 ms, 400 ms, 800 ms and then 1 s each. With \<open>k = 0\<close> the first
  transfer's result returns at once, with no clear-halt and no sleep. The state tracker
  is as before the call.
\<close>

theorem Read_zero_read_recovery:
  assumes "index conn < length (read state)"
    and "\<forall>j<k. recv_result dev (recvs (iface conn) + j) = (0, None)"
    and "recv_result dev (recvs (iface conn) + k) = (n, err)"
    and "n \<noteq> 0 \<or> err \<noteq> None"
  shows "usbConn_Read dev state conn b =
     Returns (n, err, state,
       conn\<lparr>iface := (iface conn)\<lparr>recvs := recvs (iface conn) + k + 1,
                                   halts := halts (iface conn) + k\<rparr>,
            cntRecv := cntRecv conn + n\<rparr>,
       zero_reads (length (Read_buf b)) k @ [EvRecv (length (Read_buf b))])"
proof -
  obtain state1 where b: "beginRead state (index conn) = Returns state1"
    and d: "doneRead state1 (index conn) = Returns state"
    using begin_done_Read [OF assms(1)] by blast
  have "Read_loop dev (length (Read_buf b)) (spec_backoff 0) conn
          ([] @ zero_reads (length (Read_buf b)) 0)
      = Some (n, err,
         conn\<lparr>iface := (iface conn)\<lparr>recvs := recvs (iface conn) + k + 1,
                                     halts := halts (iface conn) + k\<rparr>,
              cntRecv := cntRecv conn + n\<rparr>,
         [] @ zero_reads (length (Read_buf b)) (0 + k) @ [EvRecv (length (Read_buf b))])"
    by (rule Read_loop_zero_reads [OF assms(2,3,4)])
  then show ?thesis
    by (simp add: usbConn_Read_def b d spec_backoff_0 zero_reads_def)
qed

text \<open>
  Three zero-reads, then seven bytes: three clear-halts, and sleeps of 100, 200 and
  400 ms.
\<close>

theorem Read_zero_read_recovery_witness:
  "usbConn_Read example_device (newUsbConnState 2) example_conn (replicate 1000 (0::byte)) =
     Returns (7, None, newUsbConnState 2,
       example_conn\<lparr>iface := \<lparr>recvs = 4, halts = 3, sends = 0, closed = False\<rparr>,
                    cntRecv := 7\<rparr>,
       [EvRecv 512, EvClearHalt, EvSleep (100 * Millisecond),
        EvRecv 512, EvClearHalt, EvSleep (200 * Millisecond),
        EvRecv 512, EvClearHalt, EvSleep (400 * Millisecond),
        EvRecv 512])"
  using Read_zero_read_recovery
    [of example_conn "newUsbConnState 2" 3 example_device 7 None "replicate 1000 (0::byte)"]
  by (simp add: example_device_def example_conn_def newUsbConnState_def zero_reads_def
      spec_backoff_def Read_buf_eq Millisecond_def upt_rec less_Suc_eq numeral_3_eq_3)

text \<open>
  Claim C6. The buffer a \<open>Read\<close> hands to the USB layer is the caller's buffer cut to
  its first \<open>512 * (n div 512)\<close> bytes when its length \<open>n\<close> is at least 512 (the
  largest multiple of 512 that does not exceed \<open>n\<close>), and the caller's buffer itself
  when \<open>n < 512\<close>. Every bulk-in transfer of the \<open>Read\<close> is handed that whole buffer:
  it is never split over several transfers.
\<close>

theorem Read_alignment:
  "Read_buf b = (if 512 \<le> length b then take (512 * (length b div 512)) b else b)
   \<and> (usbConn_Read dev state conn b = Returns (n, err, state', conn', tr)
        \<longrightarrow> (\<forall>m. EvRecv m \<in> set tr \<longrightarrow> m = length (Read_buf b)))"
proof (intro conjI impI)
  show "Read_buf b = (if 512 \<le> length b then take (512 * (length b div 512)) b else b)"
    by (rule Read_buf_eq)
next
  assume "usbConn_Read dev state conn b = Returns (n, err, state', conn', tr)"
  then have "Read_loop dev (length (Read_buf b)) (Millisecond * 100) conn []
      = Some (n, err, conn', tr)"
    by (auto simp add: usbConn_Read_def split: outcome.splits option.splits)
  from Read_loop_wanted [OF this]
  show "\<forall>m. EvRecv m \<in> set tr \<longrightarrow> m = length (Read_buf b)" by simp
qed

theorem Read_alignment_witness:
  "Read_buf (replicate 1000 (0::byte)) = replicate 512 0
   \<and> Read_buf (replicate 511 (0::byte)) = replicate 511 0
   \<and> usbConn_Read example_device (newUsbConnState 2) example_conn (replicate 1000 (0::byte)) =
       Returns (7, None, newUsbConnState 2,
         example_conn\<lparr>iface := \<lparr>recvs = 4, halts = 3, sends = 0, closed = False\<rparr>,
                      cntRecv := 7\<rparr>,
         [EvRecv 512, EvClearHalt, EvSleep (100 * Millisecond),
          EvRecv 512, EvClearHalt, EvSleep (200 * Millisecond),
          EvRecv 512, EvClearHalt, EvSleep (400 * Millisecond),
          EvRecv 512])"
proof -
  have idx: "index example_conn = 0"
    by (simp add: example_conn_def)
  have len: "length (Read_buf (replicate 1000 (0::byte))) = 512"
    by (simp add: Read_buf_eq)
  have run: "usbConn_Read example_device (newUsbConnState 2) example_conn
        (replicate 1000 (0::byte)) =
       Returns (7, None, newUsbConnState 2,
         example_conn\<lparr>iface := \<lparr>recvs = 4, halts = 3, sends = 0, closed = False\<rparr>,
                      cntRecv := 7\<rparr>,
         [EvRecv 512, EvClearHalt, EvSleep (100 * Millisecond),
          EvRecv 512, EvClearHalt, EvSleep (200 * Millisecond),
          EvRecv 512, EvClearHalt, EvSleep (400 * Millisecond),
          EvRecv 512])"
    by (simp add: usbConn_Read_def len example_Read_loop idx beginRead_def doneRead_def
        AddInt32_def newUsbConnState_def numeral_2_eq_2)
  have big: "Read_buf (replicate 1000 (0::byte)) = replicate 512 0"
    using run Read_alignment [of "replicate 1000 (0::byte)" example_device
        "newUsbConnState 2" example_conn 7 None "newUsbConnState 2"
        "example_conn\<lparr>iface := \<lparr>recvs = 4, halts = 3, sends = 0, closed = False\<rparr>,
                      cntRecv := 7\<rparr>"
        "[EvRecv 512, EvClearHalt, EvSleep (100 * Millisecond),
          EvRecv 512, EvClearHalt, EvSleep (200 * Millisecond),
          EvRecv 512, EvClearHalt, EvSleep (400 * Millisecond),
          EvRecv 512]"]
    by simp
  have small: "Read_buf (replicate 511 (0::byte)) = replicate 511 0"
    using Read_alignment [of "replicate 511 (0::byte)"] by simp
  from big small run show ?thesis by simp
qed

subsection \<open>Allocating and releasing a connection\<close>

lemma put_released:
  assumes "length (connPool transport) < connPool_cap transport"
    and "index (conns transport conn) < length (alloc (connstate transport))"
  shows "put transport conn = Returns (released transport conn)"
  using assms by (simp add: put_def putConn_def AddInt32_def released_def Let_def)

lemma usbConnGet_Inr:
  assumes "Returns (Inr (conn, t1)) \<in> set (usbConnGet transport cx)"
  shows "\<exists>rest. connPool transport = conn # rest
     \<and> index (conns transport conn) < length (alloc (connstate transport))
     \<and> t1 = transport\<lparr>connPool := rest,
           connstate := (connstate transport)\<lparr>alloc := (alloc (connstate transport))
             [index (conns transport conn) :=
                alloc (connstate transport) ! index (conns transport conn) + 1]\<rparr>\<rparr>"
proof (cases "connPool transport")
  case Nil
  with assms show ?thesis
    by (auto simp add: usbConnGet_def split: if_splits option.splits)
next
  case (Cons c rest)
  with assms show ?thesis
    by (auto simp add: usbConnGet_def gotConn_def AddInt32_def
        split: if_splits option.splits)
qed

text \<open>
  Claim C1, as the code has it. Once the shutdown flag has been signalled, a call to
  \<open>usbConnGet\<close> does not wait and can fail with the shutdown error, and it fails with
  the shutdown error for certain when no connection is available in the pool and the
  caller's cancellation has not fired. When several outcomes are ready at once, the
  call may take any of them: the shutdown error, the error of the cancellation when it
  has fired, or the connection at the head of the pool when one is available.
\<close>

theorem usbConnGet_after_shutdown:
  assumes "shutdown transport"
  shows "usbConnGet transport cx =
      Returns (Inl ErrShutdown)
      # (case cx of Some e \<Rightarrow> [Returns (Inl e)] | None \<Rightarrow> [])
      @ (case connPool transport of
           [] \<Rightarrow> []
         | conn # rest \<Rightarrow>
             [case gotConn (connstate transport) (index (conns transport conn)) of
                Returns state \<Rightarrow>
                  Returns (Inr (conn, transport\<lparr>connPool := rest, connstate := state\<rparr>))
              | Panics s \<Rightarrow> Panics s
              | Hangs \<Rightarrow> Hangs])
    \<and> (cx = None \<and> connPool transport = []
      \<longrightarrow> usbConnGet transport cx = [Returns (Inl ErrShutdown)])"
  using assms by (simp add: usbConnGet_def)

theorem usbConnGet_after_shutdown_witness:
  "shutdown (example_transport\<lparr>shutdown := True, connPool := []\<rparr>)
   \<and> usbConnGet (example_transport\<lparr>shutdown := True, connPool := []\<rparr>) None
       = [Returns (Inl ErrShutdown)]"
  using usbConnGet_after_shutdown
    [of "example_transport\<lparr>shutdown := True, connPool := []\<rparr>" None]
  by (simp add: example_transport_def)

text \<open>
  The claim as stated fails where the shutdown flag is signalled, the caller's
  cancellation has fired and a connection is in the pool: the three cases of the
  \<open>select\<close> can all proceed, and the call may hand out the connection.
\<close>

theorem usbConnGet_shutdown_counterexample:
  "shutdown (example_transport\<lparr>shutdown := True\<rparr>)
   \<and> usbConnGet (example_transport\<lparr>shutdown := True\<rparr>) (Some ErrCanceled) =
       [Returns (Inl ErrShutdown),
        Returns (Inl ErrCanceled),
        Returns (Inr (0, example_transport
          \<lparr>shutdown := True, connPool := [1],
           connstate := \<lparr>alloc = [1, 0], read = [0, 0], write' = [0, 0]\<rparr>\<rparr>))]"
  by (simp add: usbConnGet_def example_transport_def example_conn_def gotConn_def
      AddInt32_def newUsbConnState_def numeral_2_eq_2)

subsection \<open>The headers of the outbound request\<close>

lemma preprocess_Returns:
  assumes "preprocess hs rq = Returns (hs1, outreq)"
  shows "\<exists>a. Header rq = Some a \<and> Header outreq = Some a \<and> Close outreq
     \<and> ContentLength outreq = ContentLength rq
     \<and> Body outreq = (case Body rq of
          None \<Rightarrow> None
        | Some body \<Rightarrow> Some (Wrapped \<lparr>rq_count = 0, rq_body = body, rq_drained = False\<rparr>))
     \<and> hs1 a ''Expect'' = None
     \<and> hs1 a ''Connection'' = Some [''close'']
     \<and> hs1 a ''User-Agent''
          = (case hs a ''User-Agent'' of None \<Rightarrow> Some [''ipp-usb''] | Some v \<Rightarrow> Some v)
     \<and> (\<forall>b. b \<noteq> a \<longrightarrow> hs1 b = hs b)"
  using assms
  by (cases "Header rq") (auto simp add: preprocess_def Let_def split: option.splits)

lemma shape_body_keeps:
  assumes "shape_body outreq = Returns (Inr outreq1)"
  shows "Header outreq1 = Header outreq \<and> Close outreq1 = Close outreq"
  using assms
  by (auto simp add: shape_body_def split: if_splits option.splits prod.splits)

lemma RoundTripWithSession_Returns:
  assumes "Returns (res, t1, hs1) \<in> set (RoundTripWithSession lib hs transport rq)"
  shows "\<exists>outreq. preprocess hs rq = Returns (hs1, outreq)"
proof (cases "preprocess hs rq")
  case (Returns p)
  obtain hs2 outreq where p: "p = (hs2, outreq)" by (cases p)
  have "hs1 = hs2"
    using assms Returns p
    by (auto simp add: RoundTripWithSession_def
        split: outcome.splits sum.splits list.splits prod.splits)
  with Returns p show ?thesis by simp
next
  case (Panics s)
  with assms show ?thesis by (simp add: RoundTripWithSession_def)
next
  case Hangs
  with assms show ?thesis by (simp add: RoundTripWithSession_def)
qed

lemma example_preprocess:
  "preprocess example_headers (example_request 0 []) = Returns (example_headers1, example_outreq)"
  by (simp add: preprocess_def example_request_def example_headers1_def example_outreq_def
      example_headers_def Let_def)

lemma example_shape_body: "shape_body example_outreq = Returns (Inr example_outreq)"
  by (simp add: shape_body_def example_outreq_def)

lemma example_usbConnGet:
  "usbConnGet example_transport None =
     [Returns (Inr (0, example_transport
        \<lparr>connPool := [1],
         connstate := \<lparr>alloc = [1, 0], read = [0, 0], write' = [0, 0]\<rparr>\<rparr>))]"
  by (simp add: usbConnGet_def example_transport_def example_conn_def gotConn_def
      AddInt32_def newUsbConnState_def numeral_2_eq_2)

lemma example_RoundTrip:
  "RoundTripWithSession lib_ok example_headers example_transport (example_request 0 []) =
     [Returns
        (Inr \<lparr>StatusCode = 200,
              RespBody = \<lparr>rsp_body = example_stream [97, 98, 99, 100], rsp_conn = 0,
                           rsp_count = 0, rsp_drained = False\<rparr>\<rparr>,
         example_transport
           \<lparr>connPool := [1],
            connstate := \<lparr>alloc = [1, 0], read = [0, 0], write' = [0, 0]\<rparr>,
            conns := (conns example_transport)
              (0 := (conns example_transport 0)\<lparr>cntSent := 10, cntRecv := 42\<rparr>)\<rparr>,
         example_headers1)]"
proof -
  have c: "ctx (example_request 0 []) = None"
    by (simp add: example_request_def)
  show ?thesis
    by (simp add: RoundTripWithSession_def example_preprocess example_shape_body c
        example_usbConnGet exchange_def lib_ok_def Let_def)
qed

text \<open>
  Claim C4. Whenever \<open>RoundTripWithSession\<close> gets as far as a request to serialize
  (the result of \<open>preprocess\<close> and then \<open>shape_body\<close>, which is the request it hands
  to \<open>Request_Write\<close>), that request is marked \<open>Close\<close>, and its header map has no
  entry \<open>Expect\<close>, has \<open>Connection\<close> set to the single value \<open>close\<close>, and has an
  entry \<open>User-Agent\<close>: the caller's when there was one, and \<open>ipp-usb\<close> otherwise.
\<close>

theorem outbound_headers:
  assumes "preprocess hs rq = Returns (hs1, outreq)"
    and "shape_body outreq = Returns (Inr outreq1)"
  shows "\<exists>a. Header outreq1 = Some a
     \<and> Close outreq1
     \<and> hs1 a ''Expect'' = None
     \<and> hs1 a ''Connection'' = Some [''close'']
     \<and> hs1 a ''User-Agent'' \<noteq> None
     \<and> hs1 a ''User-Agent''
          = (case hs a ''User-Agent'' of None \<Rightarrow> Some [''ipp-usb''] | Some v \<Rightarrow> Some v)"
proof -
  from preprocess_Returns [OF assms(1)] obtain a where
    a: "Header outreq = Some a" "Close outreq" "hs1 a ''Expect'' = None"
      "hs1 a ''Connection'' = Some [''close'']"
      "hs1 a ''User-Agent''
          = (case hs a ''User-Agent'' of None \<Rightarrow> Some [''ipp-usb''] | Some v \<Rightarrow> Some v)"
    by blast
  from a(5) have "hs1 a ''User-Agent'' \<noteq> None"
    by (simp split: option.splits)
  with a shape_body_keeps [OF assms(2)] show ?thesis by simp
qed

theorem outbound_headers_witness:
  "preprocess example_headers (example_request 0 []) = Returns (example_headers1, example_outreq)
   \<and> shape_body example_outreq = Returns (Inr example_outreq)
   \<and> Header example_outreq = Some 0
   \<and> Close example_outreq
   \<and> example_headers1 0 ''Expect'' = None
   \<and> example_headers1 0 ''Connection'' = Some [''close'']
   \<and> example_headers1 0 ''User-Agent'' = Some [''ipp-usb'']"
proof -
  have p: "preprocess example_headers (example_request 0 [])
      = Returns (example_headers1, example_outreq)"
    by (rule example_preprocess)
  have s: "shape_body example_outreq = Returns (Inr example_outreq)"
    by (rule example_shape_body)
  from outbound_headers [OF p s] p s show ?thesis
    by (simp add: example_outreq_def example_headers_def)
qed

text \<open>
  Claim C9. The outbound clone holds the same header map as the caller's request, so
  the header preprocessing changes the caller's request: in every run of
  \<open>RoundTripWithSession\<close> that returns, with a response or with an error, the header
  map of the original request has no entry \<open>Expect\<close>, has \<open>Connection\<close> set to
  \<open>close\<close>, and has the default \<open>User-Agent\<close> where it had none before; its other
  entries, and the other header maps of the store, are as before.
\<close>

theorem original_request_headers_mutated:
  assumes "Returns (res, t1, hs1) \<in> set (RoundTripWithSession lib hs transport rq)"
  shows "\<exists>a outreq. Header rq = Some a
     \<and> preprocess hs rq = Returns (hs1, outreq) \<and> Header outreq = Header rq
     \<and> hs1 a ''Expect'' = None
     \<and> hs1 a ''Connection'' = Some [''close'']
     \<and> hs1 a ''User-Agent''
          = (case hs a ''User-Agent'' of None \<Rightarrow> Some [''ipp-usb''] | Some v \<Rightarrow> Some v)
     \<and> (\<forall>k. k \<noteq> ''Expect'' \<and> k \<noteq> ''Connection'' \<and> k \<noteq> ''User-Agent''
            \<longrightarrow> hs1 a k = hs a k)
     \<and> (\<forall>b. b \<noteq> a \<longrightarrow> hs1 b = hs b)"
proof -
  from RoundTripWithSession_Returns [OF assms] obtain outreq where
    p: "preprocess hs rq = Returns (hs1, outreq)" by blast
  from preprocess_Returns [OF p] obtain a where
    a: "Header rq = Some a" "Header outreq = Some a" "hs1 a ''Expect'' = None"
      "hs1 a ''Connection'' = Some [''close'']"
      "hs1 a ''User-Agent''
          = (case hs a ''User-Agent'' of None \<Rightarrow> Some [''ipp-usb''] | Some v \<Rightarrow> Some v)"
      "\<forall>b. b \<noteq> a \<longrightarrow> hs1 b = hs b"
    by blast
  have "\<forall>k. k \<noteq> ''Expect'' \<and> k \<noteq> ''Connection'' \<and> k \<noteq> ''User-Agent''
            \<longrightarrow> hs1 a k = hs a k"
    using p a(1) by (auto simp add: preprocess_def Let_def)
  with p a show ?thesis by auto
qed

theorem original_request_headers_mutated_witness:
  "Returns
     (Inr \<lparr>StatusCode = 200,
           RespBody = \<lparr>rsp_body = example_stream [97, 98, 99, 100], rsp_conn = 0,
                        rsp_count = 0, rsp_drained = False\<rparr>\<rparr>,
      example_transport
        \<lparr>connPool := [1],
         connstate := \<lparr>alloc = [1, 0], read = [0, 0], write' = [0, 0]\<rparr>,
         conns := (conns example_transport)
           (0 := (conns example_transport 0)\<lparr>cntSent := 10, cntRecv := 42\<rparr>)\<rparr>,
      example_headers1)
     \<in> set (RoundTripWithSession lib_ok example_headers example_transport (example_request 0 []))
   \<and> Header (example_request 0 []) = Some 0
   \<and> example_headers 0 ''Expect'' = Some [''100-continue'']
   \<and> example_headers1 0 ''Expect'' = None
   \<and> example_headers 0 ''Connection'' = Some [''keep-alive'']
   \<and> example_headers1 0 ''Connection'' = Some [''close'']
   \<and> example_headers 0 ''User-Agent'' = None
   \<and> example_headers1 0 ''User-Agent'' = Some [''ipp-usb'']"
proof -
  have run: "Returns
     (Inr \<lparr>StatusCode = 200,
           RespBody = \<lparr>rsp_body = example_stream [97, 98, 99, 100], rsp_conn = 0,
                        rsp_count = 0, rsp_drained = False\<rparr>\<rparr>,
      example_transport
        \<lparr>connPool := [1],
         connstate := \<lparr>alloc = [1, 0], read = [0, 0], write' = [0, 0]\<rparr>,
         conns := (conns example_transport)
           (0 := (conns example_transport 0)\<lparr>cntSent := 10, cntRecv := 42\<rparr>)\<rparr>,
      example_headers1)
     \<in> set (RoundTripWithSession lib_ok example_headers example_transport (example_request 0 []))"
    by (simp add: example_RoundTrip)
  from original_request_headers_mutated [OF run] run show ?thesis
    by (auto simp add: example_request_def example_headers_def)
qed

subsection \<open>Errors after the connection was allocated\<close>

text \<open>
  Claim C7. Take a connection that \<open>usbConnGet\<close> has handed out, from a pool within
  its capacity. If writing the request to the connection fails, or if it succeeds and
  reading the response fails, then \<open>RoundTripWithSession\<close> goes on to return that very
  error, and the connection is back in the pool, at its end: the pool holds the
  connections it held before the allocation, and the state tracker is as before. The
  connection is only reset by \<open>put\<close> (buffered reader, byte counters); its interface
  is as the library left it, not closed by the transport.
\<close>

theorem exchange_failure_releases:
  assumes "Returns (Inr (conn, t1)) \<in> set (usbConnGet transport cx)"
    and "length (connPool transport) \<le> connPool_cap transport"
    and "Request_Write lib hs outreq (conns transport conn) = (werr, c1)"
    and "ReadResponse lib c1 outreq = (res, c2)"
    and "index c1 = index (conns transport conn)"
    and "index c2 = index (conns transport conn)"
    and "werr = Some err \<or> (werr = None \<and> res = Inl err)"
  shows "\<exists>rest. connPool transport = conn # rest
     \<and> exchange lib hs t1 conn outreq =
         Returns (Inl err,
           transport
             \<lparr>connPool := rest @ [conn],
              conns := (conns transport)
                (conn := (if werr = None then c2 else c1)
                           \<lparr>reader := [], cntRecv := 0, cntSent := 0\<rparr>)\<rparr>)"
proof -
  from usbConnGet_Inr [OF assms(1)] obtain rest where
    pool: "connPool transport = conn # rest"
    and idx: "index (conns transport conn) < length (alloc (connstate transport))"
    and t1: "t1 = transport\<lparr>connPool := rest,
           connstate := (connstate transport)\<lparr>alloc := (alloc (connstate transport))
             [index (conns transport conn) :=
                alloc (connstate transport) ! index (conns transport conn) + 1]\<rparr>\<rparr>"
    by blast
  have cap: "length rest < connPool_cap transport"
    using assms(2) pool by simp
  have w: "Request_Write lib hs outreq (conns t1 conn) = (werr, c1)"
    using assms(3) t1 by simp
  show ?thesis
  proof (cases werr)
    case (Some e)
    with assms(7) have e: "e = err" by simp
    have "exchange lib hs t1 conn outreq =
         Returns (Inl err,
           transport
             \<lparr>connPool := rest @ [conn],
              conns := (conns transport)
                (conn := c1\<lparr>reader := [], cntRecv := 0, cntSent := 0\<rparr>)\<rparr>)"
      using w Some e idx cap assms(5)
      by (simp add: exchange_def Let_def put_def putConn_def AddInt32_def t1)
    with pool Some show ?thesis by simp
  next
    case None
    with assms(7) have res: "res = Inl err" by simp
    have "exchange lib hs t1 conn outreq =
         Returns (Inl err,
           transport
             \<lparr>connPool := rest @ [conn],
              conns := (conns transport)
                (conn := c2\<lparr>reader := [], cntRecv := 0, cntSent := 0\<rparr>)\<rparr>)"
      using w None res idx cap assms(4,6)
      by (simp add: exchange_def Let_def put_def putConn_def AddInt32_def t1)
    with pool None show ?thesis by simp
  qed
qed

theorem exchange_failure_releases_witness:
  "usbConnGet example_transport None =
     [Returns (Inr (0, example_transport
        \<lparr>connPool := [1],
         connstate := \<lparr>alloc = [1, 0], read = [0, 0], write' = [0, 0]\<rparr>\<rparr>))]
   \<and> exchange lib_write_fails example_headers1
        (example_transport
          \<lparr>connPool := [1],
           connstate := \<lparr>alloc = [1, 0], read = [0, 0], write' = [0, 0]\<rparr>\<rparr>)
        0 example_outreq =
       Returns (Inl (ErrIO ''send''),
         example_transport
           \<lparr>connPool := [1, 0],
            conns := (conns example_transport) (0 := example_conn)\<rparr>)
   \<and> exchange lib_read_fails example_headers1
        (example_transport
          \<lparr>connPool := [1],
           connstate := \<lparr>alloc = [1, 0], read = [0, 0], write' = [0, 0]\<rparr>\<rparr>)
        0 example_outreq =
       Returns (Inl (ErrIO ''malformed HTTP response''),
         example_transport
           \<lparr>connPool := [1, 0],
            conns := (conns example_transport) (0 := example_conn)\<rparr>)"
proof -
  have acq: "Returns (Inr (0, example_transport
        \<lparr>connPool := [1],
         connstate := \<lparr>alloc = [1, 0], read = [0, 0], write' = [0, 0]\<rparr>\<rparr>))
      \<in> set (usbConnGet example_transport None)"
    by (simp add: example_usbConnGet)
  have cap: "length (connPool example_transport) \<le> connPool_cap example_transport"
    by (simp add: example_transport_def)
  have c0: "conns example_transport 0 = example_conn"
    by (simp add: example_transport_def example_conn_def)
  have w: "Request_Write lib_write_fails example_headers1 example_outreq
        (conns example_transport 0) = (Some (ErrIO ''send''), example_conn\<lparr>cntSent := 10\<rparr>)"
    by (simp add: lib_write_fails_def c0)
  have r: "ReadResponse lib_write_fails (example_conn\<lparr>cntSent := 10\<rparr>) example_outreq
      = (Inl (ErrIO ''recv''), example_conn\<lparr>cntSent := 10\<rparr>)"
    by (simp add: lib_write_fails_def)
  have w': "Request_Write lib_read_fails example_headers1 example_outreq
        (conns example_transport 0) = (None, example_conn\<lparr>cntSent := 10\<rparr>)"
    by (simp add: lib_read_fails_def c0)
  have r': "ReadResponse lib_read_fails (example_conn\<lparr>cntSent := 10\<rparr>) example_outreq
      = (Inl (ErrIO ''malformed HTTP response''), example_conn\<lparr>cntSent := 10, cntRecv := 7\<rparr>)"
    by (simp add: lib_read_fails_def)
  have reset: "example_conn\<lparr>cntSent := 10, reader := [], cntRecv := 0, cntSent := 0\<rparr> = example_conn"
    "example_conn\<lparr>cntSent := 10, cntRecv := 7, reader := [], cntRecv := 0, cntSent := 0\<rparr>
       = example_conn"
    by (simp_all add: example_conn_def)
  have pool: "connPool example_transport = [0, 1]"
    by (simp add: example_transport_def)
  from exchange_failure_releases [OF acq cap w r, of "ErrIO ''send''"]
  have a: "exchange lib_write_fails example_headers1
        (example_transport
          \<lparr>connPool := [1],
           connstate := \<lparr>alloc = [1, 0], read = [0, 0], write' = [0, 0]\<rparr>\<rparr>)
        0 example_outreq =
       Returns (Inl (ErrIO ''send''),
         example_transport
           \<lparr>connPool := [1, 0],
            conns := (conns example_transport) (0 := example_conn)\<rparr>)"
    by (simp add: c0 reset pool)
  from exchange_failure_releases [OF acq cap w' r', of "ErrIO ''malformed HTTP response''"]
  have b: "exchange lib_read_fails example_headers1
        (example_transport
          \<lparr>connPool := [1],
           connstate := \<lparr>alloc = [1, 0], read = [0, 0], write' = [0, 0]\<rparr>\<rparr>)
        0 example_outreq =
       Returns (Inl (ErrIO ''malformed HTTP response''),
         example_transport
           \<lparr>connPool := [1, 0],
            conns := (conns example_transport) (0 := example_conn)\<rparr>)"
    by (simp add: c0 reset pool)
  from a b show ?thesis by (simp add: example_usbConnGet)
qed

subsection \<open>Closing the response body\<close>

lemma Copy_Discard_ends:
  "ending s = Some e \<Longrightarrow>
     Copy_Discard s = Some (if e = ErrEOF then None else Some e, s\<lparr>pending := []\<rparr>)"
proof (induction "length (pending s)" arbitrary: s rule: less_induct)
  case less
  show ?case
  proof (cases "pending s = []")
    case True
    then have "s\<lparr>pending := []\<rparr> = s" by (cases s) simp
    with True less.prems show ?thesis
      by (subst Copy_Discard.simps) (simp add: stream_Read_def)
  next
    case False
    let ?s1 = "s\<lparr>pending := drop 8192 (pending s)\<rparr>"
    have "length (pending ?s1) < length (pending s)"
      using False by simp
    moreover have "ending ?s1 = Some e"
      using less.prems by simp
    ultimately have "Copy_Discard ?s1
        = Some (if e = ErrEOF then None else Some e, ?s1\<lparr>pending := []\<rparr>)"
      by (rule less.hyps)
    with False show ?thesis
      by (subst Copy_Discard.simps) (simp add: stream_Read_def)
  qed
qed

text \<open>
  Claim C3. \<open>Read\<close> on the response body wrapper marks it drained exactly when the
  body reports end-of-stream or an error. \<open>Close\<close> on a drained wrapper closes the body
  and releases the connection before it returns, with no goroutine started. \<open>Close\<close>
  on a wrapper that is not drained returns at once with no error, leaves the transport
  as it is and starts one goroutine; that goroutine, for a body that comes to an end,
  discards the rest of the body, closes it and releases the connection. The release
  (for a pool with room and a connection the state tracker knows) puts the connection
  into the pool exactly once.
\<close>

theorem Close_releases_once:
  assumes "length (connPool transport) < connPool_cap transport"
    and "index (conns transport (rsp_conn wrap)) < length (alloc (connstate transport))"
  shows "(rsp_drained wrap \<longrightarrow>
        usbResponseBodyWrapper_Close wrap transport =
          Returns (None, wrap\<lparr>rsp_body := (rsp_body wrap)\<lparr>stream_closed := True\<rparr>\<rparr>,
                   released transport (rsp_conn wrap), []))
     \<and> (\<not> rsp_drained wrap \<longrightarrow>
        usbResponseBodyWrapper_Close wrap t0 = Returns (None, wrap, t0, [wrap])
        \<and> (ending (rsp_body wrap) \<noteq> None \<longrightarrow>
             drain wrap transport =
               Returns (wrap\<lparr>rsp_body := (rsp_body wrap)\<lparr>pending := [], stream_closed := True\<rparr>\<rparr>,
                        released transport (rsp_conn wrap))))
     \<and> connPool (released transport (rsp_conn wrap)) = connPool transport @ [rsp_conn wrap]
     \<and> count_list (connPool (released transport (rsp_conn wrap))) (rsp_conn wrap)
          = count_list (connPool transport) (rsp_conn wrap) + 1
     \<and> (usbResponseBodyWrapper_Read wrap k = Some (bs, err, wrap1)
          \<longrightarrow> rsp_drained wrap1 = (rsp_drained wrap \<or> err \<noteq> None))"
proof (intro conjI impI)
  assume "rsp_drained wrap"
  then show "usbResponseBodyWrapper_Close wrap transport =
          Returns (None, wrap\<lparr>rsp_body := (rsp_body wrap)\<lparr>stream_closed := True\<rparr>\<rparr>,
                   released transport (rsp_conn wrap), [])"
    by (simp add: usbResponseBodyWrapper_Close_def stream_Close_def put_released [OF assms])
next
  assume "\<not> rsp_drained wrap"
  then show "usbResponseBodyWrapper_Close wrap t0 = Returns (None, wrap, t0, [wrap])"
    by (simp add: usbResponseBodyWrapper_Close_def)
next
  assume "ending (rsp_body wrap) \<noteq> None"
  then obtain e where "ending (rsp_body wrap) = Some e" by blast
  from Copy_Discard_ends [OF this]
  show "drain wrap transport =
      Returns (wrap\<lparr>rsp_body := (rsp_body wrap)\<lparr>pending := [], stream_closed := True\<rparr>\<rparr>,
               released transport (rsp_conn wrap))"
    by (simp add: drain_def stream_Close_def put_released [OF assms])
next
  show "connPool (released transport (rsp_conn wrap)) = connPool transport @ [rsp_conn wrap]"
    by (simp add: released_def Let_def)
next
  show "count_list (connPool (released transport (rsp_conn wrap))) (rsp_conn wrap)
          = count_list (connPool transport) (rsp_conn wrap) + 1"
    by (simp add: released_def Let_def)
next
  assume "usbResponseBodyWrapper_Read wrap k = Some (bs, err, wrap1)"
  then show "rsp_drained wrap1 = (rsp_drained wrap \<or> err \<noteq> None)"
    by (auto simp add: usbResponseBodyWrapper_Read_def Let_def
        split: option.splits prod.splits if_splits)
qed

theorem Close_releases_once_witness:
  "usbResponseBodyWrapper_Close example_wrap example_transport1
     = Returns (None, example_wrap, example_transport1, [example_wrap])
   \<and> drain example_wrap example_transport1
     = Returns (example_wrap\<lparr>rsp_body := (example_stream [])\<lparr>stream_closed := True\<rparr>\<rparr>,
                released example_transport1 0)
   \<and> usbResponseBodyWrapper_Close (example_wrap\<lparr>rsp_drained := True\<rparr>) example_transport1
     = Returns (None,
         example_wrap\<lparr>rsp_drained := True,
                       rsp_body := (example_stream [97, 98, 99, 100])\<lparr>stream_closed := True\<rparr>\<rparr>,
         released example_transport1 0, [])
   \<and> connPool example_transport1 = [1]
   \<and> connPool (released example_transport1 0) = [1, 0]
   \<and> alloc (connstate (released example_transport1 0)) = [0, 0]"
proof -
  have cap: "length (connPool example_transport1) < connPool_cap example_transport1"
    by (simp add: example_transport1_def example_transport_def)
  have idx: "index (conns example_transport1 (rsp_conn example_wrap))
      < length (alloc (connstate example_transport1))"
    by (simp add: example_transport1_def example_transport_def example_wrap_def)
  have idx': "index (conns example_transport1 (rsp_conn (example_wrap\<lparr>rsp_drained := True\<rparr>)))
      < length (alloc (connstate example_transport1))"
    using idx by simp
  have al: "alloc (connstate (released example_transport1 0)) = [0, 0]"
    by (simp add: released_def example_transport1_def example_transport_def Let_def)
  from Close_releases_once [OF cap idx, of example_transport1]
    Close_releases_once [OF cap idx', of example_transport1]
    al
  show ?thesis
    by (simp add: example_wrap_def example_stream_def example_transport1_def)
qed

subsection \<open>Shaping the request body\<close>

lemma wrapper_unchanged:
  "w\<lparr>rq_body := (rq_body w)\<lparr>pending := pending (rq_body w)\<rparr>, rq_count := rq_count w\<rparr> = w"
  by simp

lemma CopyN_loop_enough:
  "N \<le> length (pending (rq_body w)) \<Longrightarrow>
     CopyN_loop (Wrapped w) N buf =
       Some (buf @ take N (pending (rq_body w)), None,
             Wrapped (w\<lparr>rq_body := (rq_body w)\<lparr>pending := drop N (pending (rq_body w))\<rparr>,
                         rq_count := rq_count w + int N\<rparr>))"
proof (induction N arbitrary: w buf rule: less_induct)
  case (less N)
  show ?case
  proof (cases "N = 0")
    case True
    then show ?thesis
      by (subst CopyN_loop.simps) simp
  next
    case False
    let ?p = "pending (rq_body w)"
    let ?k = "min N MinRead"
    let ?w1 = "w\<lparr>rq_body := (rq_body w)\<lparr>pending := drop ?k ?p\<rparr>,
                  rq_count := rq_count w + int ?k\<rparr>"
    have k: "0 < ?k" "?k \<le> N"
      using False by (simp_all add: MinRead_def)
    have ne: "?p \<noteq> []"
      using False less.prems by auto
    have len: "length (take ?k ?p) = ?k"
      using less.prems k by simp
    have rd: "out_body_Read (Wrapped w) ?k = Some (take ?k ?p, None, Wrapped ?w1)"
      using ne len
      by (simp add: out_body_Read_def usbRequestBodyWrapper_Read_def stream_Read_def Let_def)
    have "N - ?k < N" using k by simp
    moreover have "N - ?k \<le> length (pending (rq_body ?w1))"
      using less.prems by simp
    ultimately have IH: "CopyN_loop (Wrapped ?w1) (N - ?k) (buf @ take ?k ?p) =
       Some ((buf @ take ?k ?p) @ take (N - ?k) (pending (rq_body ?w1)), None,
             Wrapped (?w1\<lparr>rq_body := (rq_body ?w1)
                            \<lparr>pending := drop (N - ?k) (pending (rq_body ?w1))\<rparr>,
                         rq_count := rq_count ?w1 + int (N - ?k)\<rparr>))"
      by (rule less.IH)
    have tk: "take ?k ?p @ take (N - ?k) (drop ?k ?p) = take N ?p"
      using k(2) take_add [of ?k "N - ?k" ?p] by simp
    have cnt: "int ?k + int (N - ?k) = int N"
      using k(2) by simp
    have step: "CopyN_loop (Wrapped w) N buf
        = CopyN_loop (Wrapped ?w1) (N - ?k) (buf @ take ?k ?p)"
      using False rd len by (subst CopyN_loop.simps) simp
    show ?thesis
      unfolding step IH using tk cnt k(2) by (simp add: add.assoc)
  qed
qed

lemma CopyN_loop_short:
  "length (pending (rq_body w)) < N \<Longrightarrow> ending (rq_body w) = Some e \<Longrightarrow>
     CopyN_loop (Wrapped w) N buf =
       Some (buf @ pending (rq_body w), None,
             Wrapped (w\<lparr>rq_body := (rq_body w)\<lparr>pending := []\<rparr>,
                         rq_count := rq_count w + int (length (pending (rq_body w))),
                         rq_drained := True\<rparr>))"
proof (induction "length (pending (rq_body w))" arbitrary: w N buf rule: less_induct)
  case less
  let ?p = "pending (rq_body w)"
  have N: "N \<noteq> 0" using less.prems(1) by simp
  show ?case
  proof (cases "?p = []")
    case True
    have rd: "out_body_Read (Wrapped w) (min N MinRead)
        = Some ([], Some ErrEOF, Wrapped (w\<lparr>rq_drained := True\<rparr>))"
      using True less.prems(2)
      by (simp add: out_body_Read_def usbRequestBodyWrapper_Read_def stream_Read_def Let_def)
    have "w\<lparr>rq_body := (rq_body w)\<lparr>pending := []\<rparr>\<rparr> = w"
      using True wrapper_unchanged [of w] by simp
    then have eq: "w\<lparr>rq_body := (rq_body w)\<lparr>pending := []\<rparr>, rq_drained := True\<rparr>
        = w\<lparr>rq_drained := True\<rparr>"
      by simp
    show ?thesis
      using N rd True eq by (subst CopyN_loop.simps) simp
  next
    case False
    let ?k = "min N MinRead"
    let ?w1 = "w\<lparr>rq_body := (rq_body w)\<lparr>pending := drop ?k ?p\<rparr>,
                  rq_count := rq_count w + int (length (take ?k ?p))\<rparr>"
    have k: "0 < ?k" using N by (simp add: MinRead_def)
    have rd: "out_body_Read (Wrapped w) ?k = Some (take ?k ?p, None, Wrapped ?w1)"
      using False
      by (simp add: out_body_Read_def usbRequestBodyWrapper_Read_def stream_Read_def Let_def)
    have dec: "length (pending (rq_body ?w1)) < length ?p"
      using False k by simp
    have short: "length (pending (rq_body ?w1)) < N - length (take ?k ?p)"
      using less.prems(1) by simp
    have en: "ending (rq_body ?w1) = Some e"
      using less.prems(2) by simp
    have IH: "CopyN_loop (Wrapped ?w1) (N - length (take ?k ?p)) (buf @ take ?k ?p) =
       Some ((buf @ take ?k ?p) @ pending (rq_body ?w1), None,
             Wrapped (?w1\<lparr>rq_body := (rq_body ?w1)\<lparr>pending := []\<rparr>,
                         rq_count := rq_count ?w1 + int (length (pending (rq_body ?w1))),
                         rq_drained := True\<rparr>))"
      by (rule less.hyps [OF dec short en])
    have step: "CopyN_loop (Wrapped w) N buf
        = CopyN_loop (Wrapped ?w1) (N - length (take ?k ?p)) (buf @ take ?k ?p)"
      using N rd by (subst CopyN_loop.simps) simp
    have cnt: "int (length (take ?k ?p)) + int (length (drop ?k ?p)) = int (length ?p)"
      by (simp add: min_def)
    show ?thesis
      unfolding step IH using cnt by (simp add: add.assoc)
  qed
qed

lemma CopyN_enough:
  assumes "0 < n" and "n \<le> int (length (pending (rq_body w)))"
  shows "CopyN (Wrapped w) n =
       Some (take (nat n) (pending (rq_body w)), None,
             Wrapped (w\<lparr>rq_body := (rq_body w)\<lparr>pending := drop (nat n) (pending (rq_body w))\<rparr>,
                         rq_count := rq_count w + n\<rparr>))"
proof -
  have "nat n \<le> length (pending (rq_body w))" using assms by simp
  from CopyN_loop_enough [OF this, of "[]"] assms show ?thesis
    by (simp add: CopyN_def min_def)
qed

lemma CopyN_short:
  assumes "int (length (pending (rq_body w))) < n" and "ending (rq_body w) = Some e"
  shows "CopyN (Wrapped w) n =
       Some (pending (rq_body w), Some ErrEOF,
             Wrapped (w\<lparr>rq_body := (rq_body w)\<lparr>pending := []\<rparr>,
                         rq_count := rq_count w + int (length (pending (rq_body w))),
                         rq_drained := True\<rparr>))"
proof -
  have "length (pending (rq_body w)) < nat n" using assms(1) by simp
  from CopyN_loop_short [OF this assms(2), of "[]"] assms(1) show ?thesis
    by (simp add: CopyN_def)
qed

lemma example_preprocess_small:
  "preprocess example_headers (example_request 3 bs) =
     Returns (example_headers1,
       example_outreq\<lparr>ContentLength := 3,
         Body := Some (Wrapped \<lparr>rq_count = 0, rq_body = example_stream bs,
                                rq_drained = False\<rparr>)\<rparr>)"
  by (simp add: preprocess_def example_request_def example_headers1_def example_outreq_def
      example_headers_def Let_def)

text \<open>
  Claim C2. Let \<open>outreq\<close> be the outbound request that \<open>preprocess\<close> makes of a
  request with declared content length \<open>L\<close>, and \<open>shape_body outreq\<close> the request that
  \<open>RoundTripWithSession\<close> goes on to serialize; \<open>shape_body\<close> runs before the connection
  is allocated and has no access to the transport.
  \<^item> \<open>L \<le> 0\<close>: the request is \<open>outreq\<close> itself, body and content length as they
    were.
  \<^item> \<open>0 < L < 16384\<close>, for a body that delivers at least \<open>L\<close> bytes: the body is
    replaced by an in-memory buffer holding its first \<open>L\<close> bytes, the content length
    stays \<open>L\<close>, and the request is framed by that content length, not chunked.
  \<^item> \<open>L \<ge> 16384\<close>: the content length is set to \<open>-1\<close> (unknown), the body stays
    the wrapper, and a request that has a body is framed as chunked, with no content
    length.
\<close>

theorem body_shaping:
  assumes "preprocess hs rq = Returns (hs1, outreq)"
  shows "(ContentLength rq \<le> 0 \<longrightarrow> shape_body outreq = Returns (Inr outreq))
     \<and> (0 < ContentLength rq \<and> ContentLength rq < 16384
          \<and> Body rq = Some s \<and> ContentLength rq \<le> int (length (pending s)) \<longrightarrow>
          shape_body outreq =
            Returns (Inr (outreq\<lparr>Body :=
              Some (NopCloser (take (nat (ContentLength rq)) (pending s)))\<rparr>))
          \<and> ContentLength (outreq\<lparr>Body :=
              Some (NopCloser (take (nat (ContentLength rq)) (pending s)))\<rparr>) = ContentLength rq
          \<and> int (length (take (nat (ContentLength rq)) (pending s))) = ContentLength rq
          \<and> framing (outreq\<lparr>Body :=
              Some (NopCloser (take (nat (ContentLength rq)) (pending s)))\<rparr>)
              = ContentLengthFramed (ContentLength rq))
     \<and> (16384 \<le> ContentLength rq \<longrightarrow>
          shape_body outreq = Returns (Inr (outreq\<lparr>ContentLength := - 1\<rparr>))
          \<and> Body (outreq\<lparr>ContentLength := - 1\<rparr>) = Body outreq
          \<and> (Body rq \<noteq> None \<longrightarrow> framing (outreq\<lparr>ContentLength := - 1\<rparr>) = Chunked))"
proof -
  from preprocess_Returns [OF assms] have
    cl: "ContentLength outreq = ContentLength rq"
    and body: "Body outreq = (case Body rq of
          None \<Rightarrow> None
        | Some body \<Rightarrow> Some (Wrapped \<lparr>rq_count = 0, rq_body = body, rq_drained = False\<rparr>))"
    by auto
  have zero: "ContentLength rq \<le> 0 \<longrightarrow> shape_body outreq = Returns (Inr outreq)"
    using cl by (simp add: shape_body_def)
  have small: "0 < ContentLength rq \<and> ContentLength rq < 16384
          \<and> Body rq = Some s \<and> ContentLength rq \<le> int (length (pending s)) \<longrightarrow>
          shape_body outreq =
            Returns (Inr (outreq\<lparr>Body :=
              Some (NopCloser (take (nat (ContentLength rq)) (pending s)))\<rparr>))
          \<and> ContentLength (outreq\<lparr>Body :=
              Some (NopCloser (take (nat (ContentLength rq)) (pending s)))\<rparr>) = ContentLength rq
          \<and> int (length (take (nat (ContentLength rq)) (pending s))) = ContentLength rq
          \<and> framing (outreq\<lparr>Body :=
              Some (NopCloser (take (nat (ContentLength rq)) (pending s)))\<rparr>)
              = ContentLengthFramed (ContentLength rq)"
  proof (intro impI, elim conjE)
    assume L: "0 < ContentLength rq" "ContentLength rq < 16384"
      and s: "Body rq = Some s" and enough: "ContentLength rq \<le> int (length (pending s))"
    let ?w = "\<lparr>rq_count = 0, rq_body = s, rq_drained = False\<rparr>"
    have b: "Body outreq = Some (Wrapped ?w)"
      using body s by simp
    have "CopyN (Wrapped ?w) (ContentLength rq) =
       Some (take (nat (ContentLength rq)) (pending (rq_body ?w)), None,
             Wrapped (?w\<lparr>rq_body := (rq_body ?w)
                           \<lparr>pending := drop (nat (ContentLength rq)) (pending (rq_body ?w))\<rparr>,
                         rq_count := rq_count ?w + ContentLength rq\<rparr>))"
      using L(1) enough by (intro CopyN_enough) simp_all
    then have sh: "shape_body outreq =
            Returns (Inr (outreq\<lparr>Body :=
              Some (NopCloser (take (nat (ContentLength rq)) (pending s)))\<rparr>))"
      using L cl b
      by (simp add: shape_body_def out_body_Close_def usbRequestBodyWrapper_Close_def
          stream_Close_def)
    have len: "int (length (take (nat (ContentLength rq)) (pending s))) = ContentLength rq"
      using L(1) enough by simp
    show "shape_body outreq =
            Returns (Inr (outreq\<lparr>Body :=
              Some (NopCloser (take (nat (ContentLength rq)) (pending s)))\<rparr>))
          \<and> ContentLength (outreq\<lparr>Body :=
              Some (NopCloser (take (nat (ContentLength rq)) (pending s)))\<rparr>) = ContentLength rq
          \<and> int (length (take (nat (ContentLength rq)) (pending s))) = ContentLength rq
          \<and> framing (outreq\<lparr>Body :=
              Some (NopCloser (take (nat (ContentLength rq)) (pending s)))\<rparr>)
              = ContentLengthFramed (ContentLength rq)"
      using sh len L(1) cl by (simp add: framing_def)
  qed
  have large: "16384 \<le> ContentLength rq \<longrightarrow>
          shape_body outreq = Returns (Inr (outreq\<lparr>ContentLength := - 1\<rparr>))
          \<and> Body (outreq\<lparr>ContentLength := - 1\<rparr>) = Body outreq
          \<and> (Body rq \<noteq> None \<longrightarrow> framing (outreq\<lparr>ContentLength := - 1\<rparr>) = Chunked)"
    using cl body by (auto simp add: shape_body_def framing_def split: option.splits)
  from zero small large show ?thesis by blast
qed

theorem body_shaping_witness:
  "preprocess example_headers (example_request 3 [1, 2, 3, 4]) =
     Returns (example_headers1,
       example_outreq\<lparr>ContentLength := 3,
         Body := Some (Wrapped \<lparr>rq_count = 0, rq_body = example_stream [1, 2, 3, 4],
                                rq_drained = False\<rparr>)\<rparr>)
   \<and> shape_body
       (example_outreq\<lparr>ContentLength := 3,
         Body := Some (Wrapped \<lparr>rq_count = 0, rq_body = example_stream [1, 2, 3, 4],
                                rq_drained = False\<rparr>)\<rparr>)
     = Returns (Inr (example_outreq\<lparr>ContentLength := 3, Body := Some (NopCloser [1, 2, 3])\<rparr>))
   \<and> framing (example_outreq\<lparr>ContentLength := 3, Body := Some (NopCloser [1, 2, 3])\<rparr>)
       = ContentLengthFramed 3"
proof -
  have p: "preprocess example_headers (example_request 3 [1, 2, 3, 4]) =
     Returns (example_headers1,
       example_outreq\<lparr>ContentLength := 3,
         Body := Some (Wrapped \<lparr>rq_count = 0, rq_body = example_stream [1, 2, 3, 4],
                                rq_drained = False\<rparr>)\<rparr>)"
    by (rule example_preprocess_small)
  from body_shaping [OF p, of "example_stream [1, 2, 3, 4]"] p show ?thesis
    by (simp add: example_request_def example_stream_def numeral_3_eq_3)
qed

text \<open>
  Claim C10. For a request with a header map and a declared content length \<open>L\<close> with
  \<open>0 < L < 16384\<close>, whose body delivers fewer than \<open>L\<close> bytes and then ends, with
  end-of-stream or with any other error: \<open>RoundTripWithSession\<close> has the single run
  that returns \<open>io.EOF\<close>, whatever the library, the shutdown flag, the context and the
  pool are. The transport is the one it was called with: no connection was allocated,
  the pool and the state tracker are unchanged, and no connection has sent a byte.
\<close>

theorem short_body_fails_before_allocation:
  assumes "0 < ContentLength rq" and "ContentLength rq < 16384"
    and "Header rq = Some a"
    and "Body rq = Some s"
    and "int (length (pending s)) < ContentLength rq"
    and "ending s = Some e"
  shows "\<exists>hs1 outreq. preprocess hs rq = Returns (hs1, outreq)
     \<and> shape_body outreq = Returns (Inl ErrEOF)
     \<and> RoundTripWithSession lib hs transport rq = [Returns (Inl ErrEOF, transport, hs1)]"
proof -
  obtain hs1 outreq where p: "preprocess hs rq = Returns (hs1, outreq)"
    using assms(3) by (simp add: preprocess_def Let_def)
  from preprocess_Returns [OF p] assms(4) have
    cl: "ContentLength outreq = ContentLength rq"
    and b: "Body outreq = Some (Wrapped \<lparr>rq_count = 0, rq_body = s, rq_drained = False\<rparr>)"
    by auto
  let ?w = "\<lparr>rq_count = 0, rq_body = s, rq_drained = False\<rparr>"
  have "CopyN (Wrapped ?w) (ContentLength rq) =
       Some (pending (rq_body ?w), Some ErrEOF,
             Wrapped (?w\<lparr>rq_body := (rq_body ?w)\<lparr>pending := []\<rparr>,
                         rq_count := rq_count ?w + int (length (pending (rq_body ?w))),
                         rq_drained := True\<rparr>))"
    using assms(5,6) by (intro CopyN_short) simp_all
  then have sh: "shape_body outreq = Returns (Inl ErrEOF)"
    using assms(1,2) cl b by (simp add: shape_body_def)
  have "RoundTripWithSession lib hs transport rq = [Returns (Inl ErrEOF, transport, hs1)]"
    using p sh by (simp add: RoundTripWithSession_def)
  with p sh show ?thesis by blast
qed

theorem short_body_fails_before_allocation_witness:
  "RoundTripWithSession lib_ok example_headers example_transport (example_request 3 [1, 2])
     = [Returns (Inl ErrEOF, example_transport, example_headers1)]"
proof -
  have p: "preprocess example_headers (example_request 3 [1, 2]) =
     Returns (example_headers1,
       example_outreq\<lparr>ContentLength := 3,
         Body := Some (Wrapped \<lparr>rq_count = 0, rq_body = example_stream [1, 2],
                                rq_drained = False\<rparr>)\<rparr>)"
    by (rule example_preprocess_small)
  from short_body_fails_before_allocation
    [of "example_request 3 [1, 2]" 0 "example_stream [1, 2]" ErrEOF example_headers lib_ok
      example_transport]
    p
  show ?thesis
    by (simp add: example_request_def example_stream_def)
qed

end
